theory Spec2Isabelle
  imports Complex_Main
begin

section \<open>The model\<close>

text \<open>
  The account of a peer in the Ethereum plugin (\<open>src/account.ts\<close>), as functions on an
  explicit state. The plugin runs on one thread, and a call is modelled from its start to
  its end without another call in between. What a call awaits from outside (the
  contract, the signer, the handlers of the plugin, the codecs) is a field of an
  environment record, which says whether the awaited call resolves and to what. A task
  the code starts without awaiting it is an event in the trace of the state.
\<close>

section \<open>Numbers\<close>

text \<open>
  Balances, channel values and fees are \<open>BigNumber\<close>s of bignumber.js: arbitrary-precision
  decimals. The finite ones are modelled as rationals. A channel's \<open>value\<close>, its \<open>spent\<close>
  and the three balances of an account are finite in every state the plugin builds, so
  they have type \<^typ>\<open>rat\<close>.

  The \<open>value\<close> of an incoming claim is a string chosen by the peer, and
  \<open>new BigNumber(claim.value)\<close> may be \<open>NaN\<close>, an infinity or a negative zero. The
  comparisons \<open>validateClaim\<close> makes on it are written out for these cases, as bignumber.js
  defines them: every comparison with \<open>NaN\<close> is false, and \<open>isNegative\<close> reads the
  sign, which a negative zero has.
\<close>

datatype bignumber = NaN | NegInfinity | NegZero | Finite rat | PosInfinity

fun isNegative :: "bignumber \<Rightarrow> bool" where
  "isNegative NaN = False"
| "isNegative NegInfinity = True"
| "isNegative NegZero = True"
| "isNegative (Finite x) = (x < 0)"
| "isNegative PosInfinity = False"

text \<open>\<open>a.isGreaterThan(b)\<close> for a parsed string \<open>a\<close> and a finite \<open>b\<close>.\<close>

fun isGreaterThan :: "bignumber \<Rightarrow> rat \<Rightarrow> bool" where
  "isGreaterThan NaN b = False"
| "isGreaterThan NegInfinity b = False"
| "isGreaterThan NegZero b = (0 > b)"
| "isGreaterThan (Finite x) b = (x > b)"
| "isGreaterThan PosInfinity b = True"

text \<open>\<open>a.isGreaterThanOrEqualTo(b)\<close> for a finite \<open>a\<close> and a parsed string \<open>b\<close>.\<close>

fun isGreaterThanOrEqualTo :: "rat \<Rightarrow> bignumber \<Rightarrow> bool" where
  "isGreaterThanOrEqualTo a NaN = False"
| "isGreaterThanOrEqualTo a NegInfinity = True"
| "isGreaterThanOrEqualTo a NegZero = (a \<ge> 0)"
| "isGreaterThanOrEqualTo a (Finite x) = (a \<ge> x)"
| "isGreaterThanOrEqualTo a PosInfinity = False"

text \<open>
  The number a finite \<open>BigNumber\<close> stands for. \<open>validateClaim\<close> computes with the claim's
  value only after \<open>isNegative\<close> and \<open>isGreaterThanOrEqualTo\<close> have let it through, which
  leaves the finite, non-negative ones (lemma \<open>checked_value_is_finite\<close> below).
\<close>

fun toNumber :: "bignumber \<Rightarrow> rat" where
  "toNumber (Finite x) = x"
| "toNumber _ = 0"

text \<open>\<open>decimalPlaces(0, BigNumber.ROUND_DOWN)\<close>: rounds towards zero.\<close>

definition round_down :: "rat \<Rightarrow> rat" where
  "round_down x = (if x \<ge> 0 then of_int \<lfloor>x\<rfloor> else of_int \<lceil>x\<rceil>)"

text \<open>
  \<open>convert(gwei(x), wei())\<close> of the library crypto-rate-utils: the amount shifted by nine
  decimal places, with what is below one wei dropped (\<open>convert\<close> rounds its result down
  to the smallest unit of the asset, and \<open>ROUND_DOWN\<close> is towards zero). So half a wei
  converts to \<open>0\<close> and \<open>2.5000000001\<close> gwei to \<open>2500000000\<close> wei.
\<close>

definition gwei_to_wei :: "rat \<Rightarrow> rat" where
  "gwei_to_wei x = round_down (x * 1000000000)"

text \<open>
  \<open>convert(wei(x), gwei())\<close>: the shift by nine decimal places the other way. Both places
  that convert to gwei round the result down to whole gwei at once, with
  \<open>decimalPlaces(0, BigNumber.ROUND_DOWN)\<close>; what \<open>convert\<close> drops below one wei cannot
  change that result.
\<close>

definition wei_to_gwei :: "rat \<Rightarrow> rat" where
  "wei_to_gwei x = x / 1000000000"

section \<open>Data model\<close>

text \<open>\<open>PaymentChannel\<close> and \<open>ClaimablePaymentChannel\<close>: the latter has its signature set.\<close>

record PaymentChannel =
  contractAddress :: string
  channelId :: string
  receiver :: string
  sender :: string
  disputePeriod :: rat
  value_c :: rat
  disputedUntil :: "rat option"
  spent :: rat
  signature :: "string option"

text \<open>\<open>SerializedClaim\<close>: the four strings of a machinomy message.\<close>

record SerializedClaim =
  claim_channelId :: string
  claim_signature :: string
  claim_value :: string
  claim_contractAddress :: string

text \<open>The fields of \<open>AccountData\<close>; each queue is held as the state it has committed.\<close>

record AccountData =
  accountName :: string
  receivableBalance :: rat
  payableBalance :: rat
  payoutAmount :: rat
  ethereumAddress :: "string option"
  incoming :: "PaymentChannel option"
  outgoing :: "PaymentChannel option"

text \<open>What the account reads of the plugin (\<open>this.master\<close>).\<close>

record master =
  wallet_address :: string
  contract_address :: string
  maxPacketAmount :: rat
  maxBalance :: rat
  minIncomingDisputePeriod :: rat
  outgoingChannelAmount :: rat
  minIncomingChannelAmount :: rat

datatype log_level = Debug | Info | Error

text \<open>
  What a call does besides changing the account: log lines, timers, handler calls,
  messages to the peer, transactions and the tasks it starts without awaiting them.
\<close>

datatype event =
    Log log_level string
  | Delay nat
  | MoneyHandler rat
  | DataHandler string
  | StartChannelWatcher
  | AutoFundOutgoingChannel
  | SendClaim PaymentChannel
  | SendMessage string
  | QueueTransaction string

text \<open>
  The state one account works on: its data, the plugin's store restricted to the keys
  \<open>channelId:incoming-channel\<close>, whether the channel watcher runs, the deposit side-queue
  (when there is one, with the state it holds) and the events so far.
\<close>

record world =
  account :: AccountData
  store :: "string \<rightharpoonup> string"
  watcher :: bool
  depositQueue :: "PaymentChannel option option"
  trace :: "event list"

text \<open>An awaited call either rejects (throws) or resolves to a value.\<close>

datatype 'a io = Throws | Returns 'a

definition emit :: "event \<Rightarrow> world \<Rightarrow> world" where
  "emit ev w = w\<lparr>trace := trace w @ [ev]\<rparr>"

definition log :: "log_level \<Rightarrow> string \<Rightarrow> world \<Rightarrow> world" where
  "log lvl msg w = emit (Log lvl msg) w"

text \<open>\<open>String.prototype.toLowerCase\<close> on ASCII, which is what an address is made of.\<close>

definition toLowerCase :: "string \<Rightarrow> string" where
  "toLowerCase s =
     map (\<lambda>c. case map_of (zip ''ABCDEFGHIJKLMNOPQRSTUVWXYZ'' ''abcdefghijklmnopqrstuvwxyz'') c of
                 Some l \<Rightarrow> l | None \<Rightarrow> c) s"

subsection \<open>What a call did\<close>

text \<open>The events a call added to the trace.\<close>

definition emitted :: "world \<Rightarrow> world \<Rightarrow> event list" where
  "emitted w w' = drop (length (trace w)) (trace w')"

text \<open>
  What a claim that is turned away leaves in the trace: a line at debug level, one of the
  two lines \<open>validateClaim\<close> logs at error level, or a wait. \<open>only_logged w w'\<close>: the call
  that led from \<open>w\<close> to \<open>w'\<close> changed nothing of the account, the store, the watcher or
  the side-queue, and added only such events.
\<close>

fun quiet :: "event \<Rightarrow> bool" where
  "quiet (Log lvl msg) =
     (lvl = Debug
      \<or> (lvl = Error
          \<and> (msg = ''Invalid claim: channel is unexpectedly closed''
              \<or> msg = ''Invalid claim: value is negative'')))"
| "quiet (Delay n) = True"
| "quiet ev = False"

definition only_logged :: "world \<Rightarrow> world \<Rightarrow> bool" where
  "only_logged w w' =
     (account w' = account w \<and> store w' = store w \<and> watcher w' = watcher w
      \<and> depositQueue w' = depositQueue w
      \<and> take (length (trace w)) (trace w') = trace w
      \<and> list_all quiet (drop (length (trace w)) (trace w')))"

section \<open>Channel helpers and queues\<close>

text \<open>
  Modelled from the spec: \<open>remainingInChannel\<close> of \<open>utils/channel\<close>, which is not among the
  sources. The spec gives the remaining capacity as \<open>value - spent\<close>.
\<close>

definition remainingInChannel :: "PaymentChannel \<Rightarrow> rat" where
  "remainingInChannel ch = value_c ch - spent ch"

text \<open>
  Modelled from the spec: \<open>spentFromChannel\<close> of \<open>utils/channel\<close>. The spec gives the new
  claim as \<open>channel.spent + increment\<close>.
\<close>

definition spentFromChannel :: "PaymentChannel \<Rightarrow> rat" where
  "spentFromChannel ch = spent ch"

text \<open>
  Modelled from the spec: \<open>isDisputed\<close> of \<open>utils/channel\<close>. The spec has a channel in
  dispute when \<open>disputedUntil\<close> is set.
\<close>

definition isDisputed :: "PaymentChannel \<Rightarrow> bool" where
  "isDisputed ch = (disputedUntil ch \<noteq> None)"

text \<open>
  Modelled from the spec: what a \<open>ReducerQueue\<close> of \<open>utils/queue\<close> (not among the sources)
  does with the result of a reducer. A reducer that resolves commits its result as the
  state of the queue; one that rejects leaves the prior state.
\<close>

definition commit :: "'s \<Rightarrow> 's io \<Rightarrow> 's" where
  "commit prior r = (case r of Throws \<Rightarrow> prior | Returns s \<Rightarrow> s)"

text \<open>
  Modelled from the spec: \<open>ReducerQueue.add\<close> on \<open>this.account.incoming\<close>. The reducer runs
  on the state of the queue and its result is committed.
\<close>

definition incoming_add ::
  "(PaymentChannel option \<Rightarrow> world \<Rightarrow> PaymentChannel option io \<times> world) \<Rightarrow> world
    \<Rightarrow> PaymentChannel option io \<times> world" where
  "incoming_add reducer w =
     (case reducer (incoming (account w)) w of
        (r, w') \<Rightarrow>
          (r, w'\<lparr>account := (account w')\<lparr>incoming := commit (incoming (account w')) r\<rparr>\<rparr>))"

text \<open>
  Modelled from the spec: \<open>ReducerQueue.add\<close> on \<open>this.account.outgoing\<close>.
\<close>

definition outgoing_add ::
  "(PaymentChannel option \<Rightarrow> world \<Rightarrow> PaymentChannel option io \<times> world) \<Rightarrow> world
    \<Rightarrow> PaymentChannel option io \<times> world" where
  "outgoing_add reducer w =
     (case reducer (outgoing (account w)) w of
        (r, w') \<Rightarrow>
          (r, w'\<lparr>account := (account w')\<lparr>outgoing := commit (outgoing (account w')) r\<rparr>\<rparr>))"

text \<open>
  Modelled from the spec: \<open>ReducerQueue.add\<close> on \<open>this.depositQueue\<close>, for a side-queue
  holding the state \<open>s\<close>.
\<close>

definition depositQueue_add ::
  "(PaymentChannel option \<Rightarrow> world \<Rightarrow> PaymentChannel option io \<times> world)
    \<Rightarrow> PaymentChannel option \<Rightarrow> world \<Rightarrow> PaymentChannel option io \<times> world" where
  "depositQueue_add reducer s w =
     (case reducer s w of (r, w') \<Rightarrow> (r, w'\<lparr>depositQueue := Some (commit s r)\<rparr>))"

section \<open>Validating an incoming claim\<close>

text \<open>
  What \<open>validateClaim\<close> asks of its environment: the parser of bignumber.js, the channel
  the contract reports at each attempt (\<open>fetchChannel\<close> of \<open>utils/channel\<close> with the
  claim's id), the signature check (\<open>isValidClaimSignature\<close> of \<open>utils/channel\<close>) and
  whether the plugin's money handler resolves.
\<close>

record validate_env =
  BigNumber :: "string \<Rightarrow> bignumber"
  fetchChannel :: "nat \<Rightarrow> PaymentChannel option io"
  isValidClaimSignature :: "SerializedClaim \<Rightarrow> PaymentChannel \<Rightarrow> bool"
  moneyHandler :: "rat \<Rightarrow> unit io"

text \<open>The key of a channel in the registry of linked channels.\<close>

definition channelKey :: "string \<Rightarrow> string" where
  "channelKey cid = cid @ '':incoming-channel''"

text \<open>
  Lines 1013 to 1062 of \<open>validateClaim\<close>: the claim increment, the test for a best claim,
  the balance update with the call of the money handler, the channel watcher and the new
  state.
\<close>

definition acceptClaim ::
  "validate_env \<Rightarrow> SerializedClaim \<Rightarrow> PaymentChannel option \<Rightarrow> PaymentChannel \<Rightarrow> world
    \<Rightarrow> PaymentChannel option io \<times> world" where
  "acceptClaim e claim cachedChannel updatedChannel w =
    (let claimIncrement =
           min (toNumber (BigNumber e (claim_value claim))) (value_c updatedChannel)
             - (case cachedChannel of Some c \<Rightarrow> spent c | None \<Rightarrow> 0);
         isBestClaim = (claimIncrement > 0)
     in
       if \<not> isBestClaim \<and> cachedChannel \<noteq> None then
         (Returns cachedChannel, log Debug ''Invalid claim: value is less than previous claim'' w)
       else
         let amount = round_down (wei_to_gwei claimIncrement);
             w1 = (if isBestClaim then
                     emit (MoneyHandler amount)
                       (w\<lparr>account := (account w)\<lparr>receivableBalance :=
                             receivableBalance (account w) - amount\<rparr>\<rparr>)
                   else w)
         in
           if isBestClaim \<and> moneyHandler e amount = Throws then (Throws, w1)
           else
             let w2 = log Debug ''Accepted incoming claim'' w1;
                 w3 = (if \<not> watcher w2 then emit StartChannelWatcher (w2\<lparr>watcher := True\<rparr>)
                       else w2)
             in (Returns (Some (updatedChannel\<lparr>
                    channelId := claim_channelId claim,
                    contractAddress := claim_contractAddress claim,
                    signature := Some (claim_signature claim),
                    spent := toNumber (BigNumber e (claim_value claim))\<rparr>)), w3))"

text \<open>
  Lines 986 to 1011 of \<open>validateClaim\<close>: for a new channel, the registry is read under the
  key of the channel; an entry that is a string turns the claim away, otherwise the
  channel is bound to this account. Then the claim goes on to the lines above.
\<close>

definition linkChannel ::
  "validate_env \<Rightarrow> SerializedClaim \<Rightarrow> PaymentChannel option \<Rightarrow> PaymentChannel \<Rightarrow> world
    \<Rightarrow> PaymentChannel option io \<times> world" where
  "linkChannel e claim cachedChannel updatedChannel w =
    (if cachedChannel = None then
       (case store w (channelKey (claim_channelId claim)) of
          Some linkedAccount \<Rightarrow>
            (Returns cachedChannel,
             log Debug ''Invalid claim: channel is already linked to a different account'' w)
        | None \<Rightarrow>
            acceptClaim e claim cachedChannel updatedChannel
              (log Debug ''Incoming channel is now linked to account''
                 (w\<lparr>store := (store w)(channelKey (claim_channelId claim)
                                  \<mapsto> accountName (account w))\<rparr>)))
     else acceptClaim e claim cachedChannel updatedChannel w)"

text \<open>
  Lines 891 to 967 of \<open>validateClaim\<close>: the checks on a channel that exists, each of which
  logs a line and returns the cached channel when it fails. The result is the line of
  the first check that fails, in the order of the source: for a new channel the receiver
  and the dispute period, for a linked channel the channel id, then for both the sign of
  the value, the contract and the signature.
\<close>

definition checkClaim ::
  "master \<Rightarrow> validate_env \<Rightarrow> SerializedClaim \<Rightarrow> PaymentChannel option \<Rightarrow> PaymentChannel
    \<Rightarrow> (log_level \<times> string) option" where
  "checkClaim m e claim cachedChannel updatedChannel =
    (if cachedChannel = None
        \<and> toLowerCase (receiver updatedChannel) \<noteq> toLowerCase (wallet_address m) then
       Some (Debug, ''Invalid claim: the recipient for new channel is not this wallet'')
     else if cachedChannel = None
        \<and> \<not> disputePeriod updatedChannel \<ge> minIncomingDisputePeriod m then
       Some (Debug, ''Invalid claim: new channel has dispute period below floor'')
     else if cachedChannel \<noteq> None
        \<and> claim_channelId claim \<noteq> channelId (the cachedChannel) then
       Some (Debug, ''Invalid claim: channel is not the previously linked channel'')
     else if isNegative (BigNumber e (claim_value claim)) then
       Some (Error, ''Invalid claim: value is negative'')
     else if toLowerCase (claim_contractAddress claim) \<noteq> toLowerCase (contract_address m) then
       Some (Debug, ''Invalid claim: sender is using a different contract or network'')
     else if \<not> isValidClaimSignature e claim updatedChannel then
       Some (Debug, ''Invalid claim: signature is invalid'')
     else None)"

text \<open>
  \<open>validateClaim(claim)(cachedChannel, attempts)\<close>. The two places that wait 250 ms and
  call it again with \<open>attempts + 1\<close> are the two recursive calls.
\<close>

function validateClaim ::
  "master \<Rightarrow> validate_env \<Rightarrow> SerializedClaim \<Rightarrow> PaymentChannel option \<Rightarrow> nat \<Rightarrow> world
    \<Rightarrow> PaymentChannel option io \<times> world" where
  "validateClaim m e claim cachedChannel attempts w =
    (let shouldFetchChannel =
           (case cachedChannel of None \<Rightarrow> True
            | Some c \<Rightarrow> isGreaterThan (BigNumber e (claim_value claim)) (value_c c))
     in
     case (if shouldFetchChannel then fetchChannel e attempts else Returns cachedChannel) of
       Throws \<Rightarrow> (Throws, w)
     | Returns None \<Rightarrow>
         (if cachedChannel = None then
            (if attempts > 20 then
               (Returns cachedChannel, log Debug ''Invalid claim: channel does not exist'' w)
             else validateClaim m e claim cachedChannel (attempts + 1) (emit (Delay 250) w))
          else
            (Returns cachedChannel, log Error ''Invalid claim: channel is unexpectedly closed'' w))
     | Returns (Some updatedChannel) \<Rightarrow>
         (case checkClaim m e claim cachedChannel updatedChannel of
            Some (lvl, msg) \<Rightarrow> (Returns cachedChannel, log lvl msg w)
          | None \<Rightarrow>
              if \<not> isGreaterThanOrEqualTo (value_c updatedChannel)
                     (BigNumber e (claim_value claim)) then
                (if attempts > 20 then
                   (Returns cachedChannel,
                    log Debug ''Invalid claim: value is above value of channel'' w)
                 else validateClaim m e claim cachedChannel (attempts + 1) (emit (Delay 250) w))
              else linkChannel e claim cachedChannel updatedChannel w))"
  by pat_completeness auto
termination
  by (relation "measure (\<lambda>(m, e, claim, cachedChannel, attempts, w). 21 - attempts)") auto

declare validateClaim.simps [simp del]

text \<open>A channel passes the checks of \<open>validateClaim\<close> that come before the registry.\<close>

definition passesChecks ::
  "master \<Rightarrow> validate_env \<Rightarrow> SerializedClaim \<Rightarrow> PaymentChannel option \<Rightarrow> PaymentChannel
    \<Rightarrow> bool" where
  "passesChecks m e claim cachedChannel updatedChannel =
     (checkClaim m e claim cachedChannel updatedChannel = None
      \<and> isGreaterThanOrEqualTo (value_c updatedChannel) (BigNumber e (claim_value claim)))"

subsection \<open>Runs of the incoming queue\<close>

text \<open>
  A run of the incoming queue on a list of claims, each validated in the environment
  it meets: the worlds after each task.
\<close>

fun validateAll :: "master \<Rightarrow> (validate_env \<times> SerializedClaim) list \<Rightarrow> world \<Rightarrow> world list" where
  "validateAll m [] w = []"
| "validateAll m ((e, claim) # tasks) w =
     (let w' = snd (incoming_add (\<lambda>cachedChannel. validateClaim m e claim cachedChannel 0) w)
      in w' # validateAll m tasks w')"

text \<open>The claims the queue has held, from the one it starts with, in order.\<close>

definition committedClaims ::
  "master \<Rightarrow> (validate_env \<times> SerializedClaim) list \<Rightarrow> world \<Rightarrow> PaymentChannel list" where
  "committedClaims m tasks w =
     List.map_filter (\<lambda>w'. incoming (account w')) (w # validateAll m tasks w)"

subsection \<open>Several accounts on one store\<close>

text \<open>
  The plugin keeps one \<open>EthereumAccount\<close> per account name (\<open>master._accounts\<close>) and one
  store for all of them. A claim for the account \<open>name\<close> is validated in its incoming
  queue against the shared store.
\<close>

record plugin =
  shared_store :: "string \<rightharpoonup> string"
  accounts :: "string \<rightharpoonup> world"

definition handleClaim ::
  "master \<Rightarrow> validate_env \<Rightarrow> SerializedClaim \<Rightarrow> string \<Rightarrow> plugin \<Rightarrow> plugin" where
  "handleClaim m e claim name p =
     (case accounts p name of
        None \<Rightarrow> p
      | Some w \<Rightarrow>
          let w' = snd (incoming_add (\<lambda>cachedChannel. validateClaim m e claim cachedChannel 0)
                          (w\<lparr>store := shared_store p\<rparr>))
          in p\<lparr>shared_store := store w', accounts := (accounts p)(name \<mapsto> w')\<rparr>)"

text \<open>
  Claims handled one after the other, each for the account named and in the environment
  it meets.
\<close>

fun handleClaims ::
  "master \<Rightarrow> (string \<times> validate_env \<times> SerializedClaim) list \<Rightarrow> plugin \<Rightarrow> plugin" where
  "handleClaims m [] p = p"
| "handleClaims m ((name, e, claim) # tasks) p = handleClaims m tasks (handleClaim m e claim name p)"

text \<open>
  Every account is filed under its name, and the channel an account holds is bound to
  that account in the registry.
\<close>

definition registered :: "plugin \<Rightarrow> bool" where
  "registered p =
     (\<forall>name w. accounts p name = Some w \<longrightarrow>
        accountName (account w) = name
        \<and> (\<forall>c. incoming (account w) = Some c \<longrightarrow>
               shared_store p (channelKey (channelId c)) = Some name))"

section \<open>Outgoing settlement\<close>

text \<open>
  What the outgoing side asks of its environment: the signer
  (\<open>secp256k1.signMessageHashRecoverableCompact\<close> on the digest of contract address, channel
  id and value, giving the signature in hex and the recovery id), the gas price, the fee
  \<open>prepareTransaction\<close> estimates for a contract method, whether the transaction queue
  gets the transaction through, and what \<open>updateChannel\<close> of \<open>utils/channel\<close> reports for a
  cached channel at the n-th read of the contract.
\<close>

record chain_env =
  signMessageHashRecoverableCompact :: "string \<Rightarrow> string \<Rightarrow> rat \<Rightarrow> string \<times> nat"
  getGasPrice :: "rat io"
  prepareTransaction :: "string \<Rightarrow> rat io"
  queueTransaction :: "string \<Rightarrow> unit io"
  updateChannel :: "nat \<Rightarrow> PaymentChannel \<Rightarrow> PaymentChannel option io"

definition signClaim :: "chain_env \<Rightarrow> rat \<Rightarrow> PaymentChannel \<Rightarrow> PaymentChannel" where
  "signClaim e v cachedChannel =
     (case signMessageHashRecoverableCompact e (contractAddress cachedChannel)
             (channelId cachedChannel) v of
        (sig, recoveryId) \<Rightarrow>
          cachedChannel\<lparr>spent := v,
            signature := Some (''0x'' @ sig @ (if recoveryId = 1 then ''1c'' else ''1b''))\<rparr>)"

definition createClaim ::
  "chain_env \<Rightarrow> PaymentChannel option \<Rightarrow> world \<Rightarrow> PaymentChannel option io \<times> world" where
  "createClaim e cachedChannel w0 =
    (let w = emit AutoFundOutgoingChannel w0;
         settlementBudget = gwei_to_wei (payoutAmount (account w))
     in
       if settlementBudget \<le> 0 then (Returns cachedChannel, w)
       else case cachedChannel of
         None \<Rightarrow> (Returns cachedChannel, log Debug ''Cannot send claim: no channel is open'' w)
       | Some c \<Rightarrow>
           if \<not> remainingInChannel c > 0 then
             (Returns cachedChannel,
              log Debug ''Cannot send claim to: no remaining funds in outgoing channel'' w)
           else
             let claimIncrement = min (remainingInChannel c) settlementBudget;
                 w1 = log Info ''Settlement attempt triggered'' w;
                 v = spentFromChannel c + claimIncrement;
                 updatedChannel = signClaim e v c;
                 w2 = emit (SendClaim updatedChannel) (log Debug ''Sending claim'' w1);
                 claimIncrementGwei = round_down (wei_to_gwei claimIncrement);
                 w3 = w2\<lparr>account := (account w2)\<lparr>payableBalance :=
                                payableBalance (account w2) - claimIncrementGwei\<rparr>\<rparr>;
                 w4 = w3\<lparr>account := (account w3)\<lparr>payoutAmount :=
                                min 0 (payoutAmount (account w3) - claimIncrementGwei)\<rparr>\<rparr>
             in (Returns (Some updatedChannel), w4))"

text \<open>
  \<open>sendMoney(amount)\<close>; \<open>None\<close> stands for a call without amount (or with the empty
  string, which is as falsy).
\<close>

definition sendMoney :: "chain_env \<Rightarrow> rat option \<Rightarrow> world \<Rightarrow> PaymentChannel option io \<times> world" where
  "sendMoney e amount w0 =
     (let amountToSend = (case amount of Some a \<Rightarrow> a | None \<Rightarrow> max 0 (payableBalance (account w0)));
          w = w0\<lparr>account := (account w0)\<lparr>payoutAmount :=
                     payoutAmount (account w0) + amountToSend\<rparr>\<rparr>
      in case depositQueue w of
           Some s \<Rightarrow> depositQueue_add (createClaim e) s w
         | None \<Rightarrow> outgoing_add (createClaim e) w)"

text \<open>A sequence of \<open>sendMoney\<close> calls, one after the other: the worlds after each.\<close>

fun sendMoneys :: "chain_env \<Rightarrow> rat option list \<Rightarrow> world \<Rightarrow> world list" where
  "sendMoneys e [] w = []"
| "sendMoneys e (amount # amounts) w =
     (let w' = snd (sendMoney e amount w) in w' # sendMoneys e amounts w')"

text \<open>
  The claims the outgoing queue has held over a sequence of \<open>sendMoney\<close> calls, from the
  one it starts with, in order.
\<close>

definition outgoingClaims :: "chain_env \<Rightarrow> rat option list \<Rightarrow> world \<Rightarrow> PaymentChannel list" where
  "outgoingClaims e amounts w =
     List.map_filter (\<lambda>w'. outgoing (account w')) (w # sendMoneys e amounts w)"

subsection \<open>Waiting for the contract to show a change\<close>

text \<open>
  \<open>refreshChannel(channel, predicate)(attempts)\<close> for a channel object: it reads the contract
  with \<open>updateChannel\<close>, at most 21 times one second apart, until the predicate holds.
  \<open>first\<close> numbers the read the first attempt makes.
\<close>

function refreshChannel ::
  "chain_env \<Rightarrow> nat \<Rightarrow> PaymentChannel \<Rightarrow> (PaymentChannel option \<Rightarrow> bool) \<Rightarrow> nat \<Rightarrow> world
    \<Rightarrow> PaymentChannel option io \<times> world" where
  "refreshChannel e first channel predicate attempts w =
     (if attempts > 20 then (Throws, w)
      else case updateChannel e (first + attempts) channel of
        Throws \<Rightarrow> (Throws, w)
      | Returns updatedChannel \<Rightarrow>
          if predicate updatedChannel then (Returns updatedChannel, w)
          else refreshChannel e first channel predicate (attempts + 1) (emit (Delay 1000) w))"
  by pat_completeness auto
termination
  by (relation "measure (\<lambda>(e, first, channel, predicate, attempts, w). 21 - attempts)") auto

declare refreshChannel.simps [simp del]

subsection \<open>Depositing to the outgoing channel\<close>

text \<open>
  The side-queue of a deposit to \<open>channel\<close>: it is created holding the channel, gets one
  \<open>createClaim\<close> task at once, and then the \<open>createClaim\<close> task of every \<open>sendMoney\<close> call
  made while the deposit is pending (\<open>pending\<close>, in order).
\<close>

definition sideQueue :: "chain_env \<Rightarrow> PaymentChannel \<Rightarrow> rat option list \<Rightarrow> world \<Rightarrow> world" where
  "sideQueue e channel pending w =
     (let w1 = snd (depositQueue_add (createClaim e) (Some channel)
                      (w\<lparr>depositQueue := Some (Some channel)\<rparr>))
      in last (w1 # sendMoneys e pending w1))"

text \<open>
  Modelled from the spec: \<open>ReducerQueue.clear\<close>, which gives the final state of the queue
  once its tasks are done; here \<open>this.depositQueue.clear()\<close> followed by
  \<open>delete this.depositQueue\<close>.
\<close>

definition clearDepositQueue :: "world \<Rightarrow> PaymentChannel option \<times> world" where
  "clearDepositQueue w =
     (case depositQueue w of Some s \<Rightarrow> (s, w\<lparr>depositQueue := None\<rparr>) | None \<Rightarrow> (None, w))"

text \<open>
  The predicate \<open>depositToChannel\<close> waits for: the contract shows the channel with the old
  value plus the deposit.
\<close>

definition isDepositSuccessful :: "rat \<Rightarrow> PaymentChannel option \<Rightarrow> bool" where
  "isDepositSuccessful totalNewValue updatedChannel =
     (case updatedChannel of None \<Rightarrow> False | Some u \<Rightarrow> value_c u = totalNewValue)"

text \<open>What the \<open>catch\<close> of \<open>depositToChannel\<close> returns.\<close>

definition depositFailed :: "world \<Rightarrow> PaymentChannel option io \<times> world" where
  "depositFailed w =
     (case clearDepositQueue (log Error ''Failed to deposit to channel'' w) of
        (bestClaim, w') \<Rightarrow> (Returns bestClaim, w'))"

text \<open>
  \<open>depositToChannel(channel, value, authorize)\<close>, with the \<open>sendMoney\<close> calls that arrive
  while it runs. The contract and the gas price are awaited before the promise chain
  that has the \<open>catch\<close>, so a failure there rejects the call and leaves the side-queue.
\<close>

definition depositToChannel ::
  "chain_env \<Rightarrow> rat option list \<Rightarrow> PaymentChannel \<Rightarrow> rat \<Rightarrow> (rat \<Rightarrow> unit io) \<Rightarrow> world
    \<Rightarrow> PaymentChannel option io \<times> world" where
  "depositToChannel e pending channel v authorize w0 =
    (let w = sideQueue e channel pending w0;
         totalNewValue = value_c channel + v
     in
       case getGasPrice e of
         Throws \<Rightarrow> (Throws, w)
       | Returns gasPrice \<Rightarrow>
          (case prepareTransaction e ''deposit'' of
             Throws \<Rightarrow> depositFailed w
           | Returns txFee \<Rightarrow>
              (case authorize txFee of
                 Throws \<Rightarrow> depositFailed w
               | Returns _ \<Rightarrow>
                  (let w1 = emit (QueueTransaction ''deposit'')
                              (log Debug ''Depositing to channel'' w)
                   in case queueTransaction e ''deposit'' of
                     Throws \<Rightarrow> depositFailed w1
                   | Returns _ \<Rightarrow>
                      (case refreshChannel e 0 channel (isDepositSuccessful totalNewValue) 0 w1 of
                         (Throws, w2) \<Rightarrow> depositFailed w2
                       | (Returns updatedChannel, w2) \<Rightarrow>
                          (let w3 = log Debug ''Successfully deposited to channel''
                                      (emit (SendMessage ''channelDeposit'')
                                         (log Debug ''Informing peer of channel top-up'' w2))
                           in case clearDepositQueue w3 of
                             (forkedState, w4) \<Rightarrow>
                               (Returns
                                  (case forkedState of
                                     Some f \<Rightarrow>
                                       map_option (\<lambda>u. u\<lparr>signature := signature f, spent := spent f\<rparr>)
                                         updatedChannel
                                   | None \<Rightarrow> updatedChannel),
                                w4)))))))"

section \<open>Claiming the incoming channel\<close>

text \<open>
  Lines 1196 to 1214 of \<open>claimIfProfitable\<close>: the transaction is handed to the
  transaction queue, and the contract is read until the channel is gone.
\<close>

definition submitClaim ::
  "chain_env \<Rightarrow> PaymentChannel \<Rightarrow> world \<Rightarrow> PaymentChannel option io \<times> world" where
  "submitClaim e updatedChannel w =
     (let w1 = emit (QueueTransaction ''claim'') w
      in case queueTransaction e ''claim'' of
           Throws \<Rightarrow> (Throws, log Error ''Failed to claim channel'' w1)
         | Returns _ \<Rightarrow>
             (case refreshChannel e 1 updatedChannel (\<lambda>channel. channel = None) 0 w1 of
                (Throws, w2) \<Rightarrow> (Throws, w2)
              | (Returns closedChannel, w2) \<Rightarrow>
                  (Returns closedChannel,
                   log Debug ''Successfully claimed incoming channel'' w2)))"

text \<open>
  The reducer \<open>claimIfProfitable(requireDisputed, authorize)\<close> adds to the incoming queue.
  \<open>authorize\<close> is \<open>None\<close> when the caller gives no callback. The first read of the
  contract is read 0 of \<open>updateChannel\<close>, the reads of \<open>refreshChannel\<close> follow from 1.
\<close>

definition claimReducer ::
  "chain_env \<Rightarrow> bool \<Rightarrow> (PaymentChannel \<Rightarrow> rat \<Rightarrow> unit io) option \<Rightarrow> PaymentChannel option
    \<Rightarrow> world \<Rightarrow> PaymentChannel option io \<times> world" where
  "claimReducer e requireDisputed authorize cachedChannel w =
     (case cachedChannel of
        None \<Rightarrow> (Returns cachedChannel, w)
      | Some c \<Rightarrow>
         (case updateChannel e 0 c of
            Throws \<Rightarrow> (Throws, w)
          | Returns None \<Rightarrow>
              (Returns None,
               log Error ''Cannot claim channel: linked channel is unexpectedly closed'' w)
          | Returns (Some updatedChannel) \<Rightarrow>
              if requireDisputed \<and> \<not> isDisputed updatedChannel then
                (Returns (Some updatedChannel),
                 log Debug ''Will not claim channel: channel is not disputed'' w)
              else
                let w1 = log Debug ''Attempting to claim channel'' w
                in case getGasPrice e of
                     Throws \<Rightarrow> (Throws, w1)
                   | Returns gasPrice \<Rightarrow>
                      (case prepareTransaction e ''claim'' of
                         Throws \<Rightarrow> (Throws, w1)
                       | Returns txFee \<Rightarrow>
                          (case authorize of
                             Some callback \<Rightarrow>
                               (case callback updatedChannel txFee of
                                  Throws \<Rightarrow> (Returns (Some updatedChannel), w1)
                                | Returns _ \<Rightarrow> submitClaim e updatedChannel w1)
                           | None \<Rightarrow>
                               if txFee \<ge> spent updatedChannel then
                                 (Returns (Some updatedChannel),
                                  log Debug ''Not profitable to claim channel'' w1)
                               else submitClaim e updatedChannel w1))))"

text \<open>
  \<open>claimIfProfitable(requireDisputed, authorize)\<close>. The priority of the task orders it
  among the tasks that wait; what one task does is the reducer.
\<close>

definition claimIfProfitable ::
  "chain_env \<Rightarrow> bool \<Rightarrow> (PaymentChannel \<Rightarrow> rat \<Rightarrow> unit io) option \<Rightarrow> world
    \<Rightarrow> PaymentChannel option io \<times> world" where
  "claimIfProfitable e requireDisputed authorize w =
     incoming_add (claimReducer e requireDisputed authorize) w"

section \<open>Messages from the peer\<close>

text \<open>
  A value \<open>JSON.parse\<close> returns. The members of an object are kept in the order of the
  text; reading a property takes the last member of that name, as \<open>JSON.parse\<close> does.
\<close>

datatype json =
    JNull
  | JBoolean bool
  | JNumber rat
  | JString string
  | JArray "json list"
  | JObject "(string \<times> json) list"

text \<open>
  \<open>o[name]\<close> for one of the property names this file reads (\<open>value\<close>, \<open>channelId\<close>,
  \<open>signature\<close>, \<open>contractAddress\<close>, \<open>ethereumAddress\<close>): reading a property of \<open>null\<close>
  throws a \<open>TypeError\<close>, and the other values that are not objects have no such property.
\<close>

fun property :: "json \<Rightarrow> string \<Rightarrow> json option io" where
  "property JNull name = Throws"
| "property (JObject members) name = Returns (map_of (rev members) name)"
| "property j name = Returns None"

text \<open>\<open>typeof x === 'string'\<close>, and the string.\<close>

fun isString :: "json option io \<Rightarrow> bool" where
  "isString (Returns (Some (JString s))) = True"
| "isString x = False"

fun stringOf :: "json option io \<Rightarrow> string" where
  "stringOf (Returns (Some (JString s))) = s"
| "stringOf x = []"

text \<open>
  What an error is when it reaches \<open>errorToReject\<close>: one of the two this file throws, or
  whatever the named call threw.
\<close>

datatype thrown = AmountTooLargeError | InsufficientLiquidityError | ThrownBy string

text \<open>
  A \<open>Buffer\<close>: bytes as received, the text of a JSON value (\<open>Buffer.from(JSON.stringify(j))\<close>)
  or the ILP reject \<open>errorToReject('', err)\<close> builds.
\<close>

datatype buffer = Bytes string | Stringify json | ErrorToReject thrown

datatype mime = MIME_APPLICATION_OCTET_STREAM | MIME_TEXT_PLAIN_UTF8 | MIME_APPLICATION_JSON

record BtpSubProtocol =
  protocolName :: string
  contentType :: mime
  data :: buffer

datatype IlpReply = IlpFulfill | IlpReject string

text \<open>
  What \<open>handleData\<close> asks of its environment: \<open>JSON.parse\<close> on the text of a buffer,
  \<open>ethers.utils.getAddress\<close>, the ILP codec (\<open>deserializeIlpPrepare\<close> gives the amount of
  the packet), the plugin's data handler, and the environments of claim validation and
  of the contract.
\<close>

record handler_env =
  JSON_parse :: "buffer \<Rightarrow> json io"
  getAddress :: "string \<Rightarrow> string io"
  deserializeIlpPrepare :: "buffer \<Rightarrow> rat io"
  dataHandler :: "buffer \<Rightarrow> buffer io"
  deserializeIlpReply :: "buffer \<Rightarrow> IlpReply io"
  validation :: validate_env
  chain :: chain_env

text \<open>
  \<open>getBtpSubprotocol(message, name)\<close>: the first sub-protocol of that name.
\<close>

definition getBtpSubprotocol :: "BtpSubProtocol list \<Rightarrow> string \<Rightarrow> BtpSubProtocol option" where
  "getBtpSubprotocol protocolData name = find (\<lambda>p. protocolName p = name) protocolData"

subsection \<open>The \<open>info\<close> message\<close>

text \<open>
  \<open>linkEthereumAddress(info)\<close>. Everything that throws inside is caught and logged. An
  address already linked is kept for the lifetime of the account.
\<close>

definition linkEthereumAddress :: "handler_env \<Rightarrow> BtpSubProtocol \<Rightarrow> world \<Rightarrow> world" where
  "linkEthereumAddress e info w =
     (case JSON_parse e (data info) of
        Throws \<Rightarrow> log Debug ''Failed to link Ethereum address'' w
      | Returns j \<Rightarrow>
         (case property j ''ethereumAddress'' of
            Throws \<Rightarrow> log Debug ''Failed to link Ethereum address'' w
          | Returns address \<Rightarrow>
             if \<not> isString (Returns address) then
               log Debug ''Failed to link Ethereum address: invalid response, no address provided'' w
             else
               (case getAddress e (stringOf (Returns address)) of
                  Throws \<Rightarrow> log Debug ''Failed to link Ethereum address'' w
                | Returns checksum \<Rightarrow>
                   if checksum = [] then
                     log Debug ''Failed to link Ethereum address: not a valid address'' w
                   else
                     (case ethereumAddress (account w) of
                        Some currentAddress \<Rightarrow>
                          if currentAddress \<noteq> [] then
                            (if toLowerCase currentAddress
                                  = toLowerCase (stringOf (Returns address)) then w
                             else log Debug ''Cannot link Ethereum address: another is already linked'' w)
                          else
                            log Debug ''Successfully linked Ethereum address''
                              (w\<lparr>account := (account w)\<lparr>ethereumAddress :=
                                    Some (stringOf (Returns address))\<rparr>\<rparr>)
                      | None \<Rightarrow>
                          log Debug ''Successfully linked Ethereum address''
                            (w\<lparr>account := (account w)\<lparr>ethereumAddress :=
                                  Some (stringOf (Returns address))\<rparr>\<rparr>)))))"

subsection \<open>The \<open>channelDeposit\<close> message\<close>

text \<open>The reducer that takes the new value into the incoming channel.\<close>

definition confirmDeposit ::
  "PaymentChannel \<Rightarrow> PaymentChannel \<Rightarrow> PaymentChannel option \<Rightarrow> world
    \<Rightarrow> PaymentChannel option io \<times> world" where
  "confirmDeposit cachedChannel updatedChannel newCachedChannel w =
     (case newCachedChannel of
        None \<Rightarrow>
          (Returns newCachedChannel,
           log Debug ''Incoming channel was closed while confirming deposit'' w)
      | Some n \<Rightarrow>
          if \<not> (channelId n = channelId cachedChannel
                \<and> disputePeriod n = disputePeriod cachedChannel
                \<and> sender n = sender cachedChannel \<and> receiver n = receiver cachedChannel) then
            (Returns newCachedChannel,
             log Debug ''Incoming channel was closed while confirming deposit'' w)
          else
            (Returns (Some (n\<lparr>value_c := max (value_c updatedChannel) (value_c n)\<rparr>)),
             log Debug ''Confirmed deposit to incoming channel'' w))"

text \<open>
  \<open>checkForDeposit(attempts)\<close> for the channel cached when the message came: it reads the
  contract until the value has grown, at most 21 times 250 ms apart.
\<close>

function checkForDeposit ::
  "chain_env \<Rightarrow> PaymentChannel \<Rightarrow> nat \<Rightarrow> world \<Rightarrow> unit io \<times> world" where
  "checkForDeposit e cachedChannel attempts w =
     (if attempts > 20 then
        (Returns (), log Debug ''Failed to confirm incoming deposit after several attempts'' w)
      else case updateChannel e attempts cachedChannel of
        Throws \<Rightarrow> (Throws, w)
      | Returns None \<Rightarrow> (Returns (), w)
      | Returns (Some updatedChannel) \<Rightarrow>
          if \<not> value_c updatedChannel > value_c cachedChannel then
            checkForDeposit e cachedChannel (attempts + 1) (emit (Delay 250) w)
          else
            (case incoming_add (confirmDeposit cachedChannel updatedChannel) w of
               (Throws, w') \<Rightarrow> (Throws, w')
             | (Returns _, w') \<Rightarrow> (Returns (), w')))"
  by pat_completeness auto
termination
  by (relation "measure (\<lambda>(e, cachedChannel, attempts, w). 21 - attempts)") auto

declare checkForDeposit.simps [simp del]

subsection \<open>The \<open>machinomy\<close> message\<close>

text \<open>
  \<open>hasValidSchema(o)\<close>: the four properties are strings. Reading the first one throws
  when \<open>o\<close> is \<open>null\<close>.
\<close>

definition hasValidSchema :: "json \<Rightarrow> bool io" where
  "hasValidSchema j =
     (case property j ''value'' of
        Throws \<Rightarrow> Throws
      | Returns v \<Rightarrow>
          Returns (isString (Returns v) \<and> isString (property j ''channelId'')
                   \<and> isString (property j ''signature'')
                   \<and> isString (property j ''contractAddress'')))"

text \<open>The claim a value with a valid schema is.\<close>

definition toClaim :: "json \<Rightarrow> SerializedClaim" where
  "toClaim j = \<lparr>claim_channelId = stringOf (property j ''channelId''),
                claim_signature = stringOf (property j ''signature''),
                claim_value = stringOf (property j ''value''),
                claim_contractAddress = stringOf (property j ''contractAddress'')\<rparr>"

text \<open>
  Lines 746 to 783 of \<open>handleData\<close>. \<open>JSON.parse\<close> and \<open>hasValidSchema\<close> are outside any
  \<open>try\<close>; what \<open>validateClaim\<close> throws is caught and logged.
\<close>

definition handleMachinomy ::
  "master \<Rightarrow> handler_env \<Rightarrow> BtpSubProtocol \<Rightarrow> world \<Rightarrow> BtpSubProtocol list io \<times> world" where
  "handleMachinomy m e machinomy w0 =
     (let w = log Debug ''Handling Machinomy claim'' w0
      in case JSON_parse e (data machinomy) of
           Throws \<Rightarrow> (Throws, w)
         | Returns claim \<Rightarrow>
            (case hasValidSchema claim of
               Throws \<Rightarrow> (Throws, w)
             | Returns False \<Rightarrow> (Returns [], log Debug ''Invalid claim: schema is malformed'' w)
             | Returns True \<Rightarrow>
                (case incoming_add (\<lambda>cachedChannel.
                         validateClaim m (validation e) (toClaim claim) cachedChannel 0) w of
                   (Throws, w') \<Rightarrow>
                     (Returns [],
                      emit AutoFundOutgoingChannel (log Error ''Failed to validate claim'' w'))
                 | (Returns _, w') \<Rightarrow> (Returns [], emit AutoFundOutgoingChannel w'))))"

subsection \<open>The \<open>ilp\<close> message\<close>

text \<open>The list \<open>handleData\<close> answers an ILP PREPARE with.\<close>

definition ilpResponse :: "buffer \<Rightarrow> BtpSubProtocol list" where
  "ilpResponse response =
     [\<lparr>protocolName = ''ilp'', contentType = MIME_APPLICATION_OCTET_STREAM, data = response\<rparr>]"

text \<open>
  Lines 787 to 853 of \<open>handleData\<close>: an ILP PREPARE from the peer. Whatever is thrown
  inside the \<open>try\<close> becomes the reject \<open>errorToReject\<close> builds from it.
\<close>

definition handlePrepare ::
  "master \<Rightarrow> handler_env \<Rightarrow> BtpSubProtocol \<Rightarrow> world \<Rightarrow> BtpSubProtocol list io \<times> world" where
  "handlePrepare m e ilp w =
     (case deserializeIlpPrepare e (data ilp) of
        Throws \<Rightarrow> (Returns (ilpResponse (ErrorToReject (ThrownBy ''deserializeIlpPrepare''))), w)
      | Returns amount \<Rightarrow>
          if amount > maxPacketAmount m then
            (Returns (ilpResponse (ErrorToReject AmountTooLargeError)), w)
          else
            let newBalance = receivableBalance (account w) + amount
            in if newBalance > maxBalance m then
                 (Returns (ilpResponse (ErrorToReject InsufficientLiquidityError)),
                  log Debug ''Cannot forward PREPARE: proposed balance exceeds maximum'' w)
               else
                 let w1 = log Debug ''Forwarding PREPARE'' w;
                     w2 = emit (DataHandler ''ilp'')
                            (w1\<lparr>account := (account w1)\<lparr>receivableBalance := newBalance\<rparr>\<rparr>)
                 in case dataHandler e (data ilp) of
                      Throws \<Rightarrow> (Returns (ilpResponse (ErrorToReject (ThrownBy ''dataHandler''))), w2)
                    | Returns response \<Rightarrow>
                       (case deserializeIlpReply e response of
                          Throws \<Rightarrow>
                            (Returns (ilpResponse (ErrorToReject (ThrownBy ''deserializeIlpReply''))),
                             w2)
                        | Returns (IlpReject code) \<Rightarrow>
                            (let w3 = log Debug ''Credited in response to REJECT'' w2
                             in (Returns (ilpResponse response),
                                 w3\<lparr>account := (account w3)\<lparr>receivableBalance :=
                                       receivableBalance (account w3) - amount\<rparr>\<rparr>))
                        | Returns IlpFulfill \<Rightarrow>
                            (Returns (ilpResponse response),
                             log Debug ''Received FULFILL in response to forwarded PREPARE'' w2)))"

subsection \<open>\<open>handleData\<close>\<close>

text \<open>\<open>handleData(message)\<close>, on the sub-protocols of the message.\<close>

definition handleData ::
  "master \<Rightarrow> handler_env \<Rightarrow> BtpSubProtocol list \<Rightarrow> world \<Rightarrow> BtpSubProtocol list io \<times> world" where
  "handleData m e protocolData w =
     (case getBtpSubprotocol protocolData ''info'' of
        Some info \<Rightarrow>
          (Returns [\<lparr>protocolName = ''info'', contentType = MIME_APPLICATION_JSON,
                     data = Stringify (JObject [(''ethereumAddress'', JString (wallet_address m))])\<rparr>],
           linkEthereumAddress e info w)
      | None \<Rightarrow>
     (case getBtpSubprotocol protocolData ''channelDeposit'' of
        Some channelDeposit \<Rightarrow>
          (case incoming (account w) of
             None \<Rightarrow> (Returns [], w)
           | Some cachedChannel \<Rightarrow>
               (case checkForDeposit (chain e) cachedChannel 0
                       (log Debug ''Checking if peer has deposited to channel'' w) of
                  (Throws, w') \<Rightarrow> (Returns [], log Error ''Error confirming incoming deposit'' w')
                | (Returns _, w') \<Rightarrow> (Returns [], w')))
      | None \<Rightarrow>
     (case getBtpSubprotocol protocolData ''requestClose'' of
        Some requestClose \<Rightarrow>
          (case claimIfProfitable (chain e) False (Some (\<lambda>channel fee. Returns ()))
                  (log Info ''Channel close requested'' w) of
             (Throws, w') \<Rightarrow> (Returns [], log Error ''Error attempting to claim channel'' w')
           | (Returns _, w') \<Rightarrow> (Returns [], w'))
      | None \<Rightarrow>
     (case getBtpSubprotocol protocolData ''machinomy'' of
        Some machinomy \<Rightarrow> handleMachinomy m e machinomy w
      | None \<Rightarrow>
     (case getBtpSubprotocol protocolData ''ilp'' of
        Some ilp \<Rightarrow> handlePrepare m e ilp w
      | None \<Rightarrow> (Returns [], w))))))"

text \<open>
  \<open>reaches protocolData name p\<close>: the message has the sub-protocol \<open>p\<close> under \<open>name\<close> and none
  of those \<open>handleData\<close> looks for before it.
\<close>

definition reaches :: "BtpSubProtocol list \<Rightarrow> string \<Rightarrow> BtpSubProtocol \<Rightarrow> bool" where
  "reaches protocolData name p =
     (getBtpSubprotocol protocolData name = Some p
      \<and> list_all (\<lambda>earlier. getBtpSubprotocol protocolData earlier = None)
           (takeWhile (\<lambda>n. n \<noteq> name)
              [''info'', ''channelDeposit'', ''requestClose'', ''machinomy'', ''ilp'']))"

section \<open>Definitions used in the proofs\<close>

text \<open>The channel an attempt of \<open>validateClaim\<close> works on.\<close>

definition fetched :: "validate_env \<Rightarrow> SerializedClaim \<Rightarrow> PaymentChannel option \<Rightarrow> nat \<Rightarrow> PaymentChannel option io" where
  "fetched e claim cachedChannel attempts =
     (if (case cachedChannel of None \<Rightarrow> True
            | Some c \<Rightarrow> isGreaterThan (BigNumber e (claim_value claim)) (value_c c))
      then fetchChannel e attempts else Returns cachedChannel)"

text \<open>
  What \<open>validateClaim\<close> can come to from a world \<open>w0\<close>: it returns the cached channel or
  throws, having only logged and waited, or it reaches the registry with a channel that
  passed the checks.
\<close>

definition outcome :: "master \<Rightarrow> validate_env \<Rightarrow> SerializedClaim \<Rightarrow> PaymentChannel option \<Rightarrow> world
    \<Rightarrow> PaymentChannel option io \<times> world \<Rightarrow> bool" where
  "outcome m e claim cachedChannel w0 res =
     ((\<exists>w1. only_logged w0 w1 \<and> (res = (Returns cachedChannel, w1) \<or> res = (Throws, w1)))
    \<or> (\<exists>w1 u. only_logged w0 w1 \<and> passesChecks m e claim cachedChannel u
           \<and> res = linkChannel e claim cachedChannel u w1))"

text \<open>A world after \<open>n\<close> waits of 250 ms.\<close>

definition waits :: "nat \<Rightarrow> world \<Rightarrow> world" where
  "waits n w = w\<lparr>trace := trace w @ replicate n (Delay 250)\<rparr>"

text \<open>
  The lines \<open>validateClaim\<close> logs when it turns a claim away, each with its level, in the
  order of the source.
\<close>

definition invalid_claim_lines :: "(log_level \<times> string) list" where
  "invalid_claim_lines =
     [(Debug, ''Invalid claim: channel does not exist''),
      (Error, ''Invalid claim: channel is unexpectedly closed''),
      (Debug, ''Invalid claim: the recipient for new channel is not this wallet''),
      (Debug, ''Invalid claim: new channel has dispute period below floor''),
      (Debug, ''Invalid claim: channel is not the previously linked channel''),
      (Error, ''Invalid claim: value is negative''),
      (Debug, ''Invalid claim: sender is using a different contract or network''),
      (Debug, ''Invalid claim: signature is invalid''),
      (Debug, ''Invalid claim: value is above value of channel''),
      (Debug, ''Invalid claim: channel is already linked to a different account''),
      (Debug, ''Invalid claim: value is less than previous claim'')]"

text \<open>
  What a call of \<open>validateClaim\<close> comes to after at most \<open>k\<close> waits: it throws, or it
  logs one of its lines and returns the cached channel, or it goes on to the registry.
\<close>

definition comes_to ::
  "validate_env \<Rightarrow> SerializedClaim \<Rightarrow> PaymentChannel option \<Rightarrow> nat \<Rightarrow> world
    \<Rightarrow> PaymentChannel option io \<times> world \<Rightarrow> bool" where
  "comes_to e claim cachedChannel k w res =
     (\<exists>n. n \<le> k
        \<and> (res = (Throws, waits n w)
           \<or> (\<exists>lvl msg. (lvl, msg) \<in> set invalid_claim_lines
                 \<and> res = (Returns cachedChannel, log lvl msg (waits n w)))
           \<or> (\<exists>u. res = linkChannel e claim cachedChannel u (waits n w))))"

text \<open>One committed claim against a later one: the same state, or strictly more spent.\<close>

definition advances :: "PaymentChannel \<Rightarrow> PaymentChannel \<Rightarrow> bool" where
  "advances a b = (a = b \<or> spent a < spent b)"

text \<open>
  One outgoing claim against a later one: the same state, or strictly more spent and
  within the value of the channel.
\<close>

definition settles :: "PaymentChannel \<Rightarrow> PaymentChannel \<Rightarrow> bool" where
  "settles a b = (a = b \<or> (spent a < spent b \<and> spent b \<le> value_c b))"

section \<open>Example states\<close>

text \<open>
  One plugin, its account \<open>alice\<close>, an incoming channel of 5 gwei on the contract and an
  outgoing one; environments in which the contract, the signer and the handlers answer
  in a fixed way.
\<close>

definition example_master :: master where
  "example_master = \<lparr>wallet_address = ''0xAbC1'', contract_address = ''0xC0de'',
     maxPacketAmount = 100, maxBalance = 1000, minIncomingDisputePeriod = 10,
     outgoingChannelAmount = 2000000000, minIncomingChannelAmount = 1000000000\<rparr>"

definition example_channel :: PaymentChannel where
  "example_channel = \<lparr>contractAddress = ''0xc0de'', channelId = ''0x01'', receiver = ''0xabc1'',
     sender = ''0x5e4d'', disputePeriod = 10, value_c = 5000000000, disputedUntil = None,
     spent = 0, signature = None\<rparr>"

definition example_claim :: "string \<Rightarrow> SerializedClaim" where
  "example_claim v = \<lparr>claim_channelId = ''0x01'', claim_signature = ''0x5161'',
     claim_value = v, claim_contractAddress = ''0xC0DE''\<rparr>"

definition example_env :: validate_env where
  "example_env = \<lparr>
     BigNumber = (\<lambda>s. if s = ''0'' then Finite 0
                     else if s = ''1500000000'' then Finite 1500000000
                     else if s = ''2500000000'' then Finite 2500000000
                     else if s = ''-1'' then Finite (-1) else NaN),
     fetchChannel = (\<lambda>attempts. Returns (Some example_channel)),
     isValidClaimSignature = (\<lambda>claim ch. claim_signature claim = ''0x5161''),
     moneyHandler = (\<lambda>amount. Returns ())\<rparr>"

definition example_account :: AccountData where
  "example_account = \<lparr>accountName = ''alice'', receivableBalance = 7, payableBalance = 3,
     payoutAmount = 0, ethereumAddress = Some ''0x5e4d'', incoming = None, outgoing = None\<rparr>"

definition example_world :: world where
  "example_world = \<lparr>account = example_account, store = Map.empty, watcher = False,
     depositQueue = None, trace = []\<rparr>"

definition example_linked :: world where
  "example_linked = example_world\<lparr>
     account := example_account\<lparr>incoming :=
       Some (example_channel\<lparr>signature := Some ''0x5160'', spent := 1000000000\<rparr>)\<rparr>,
     store := [''0x01:incoming-channel'' \<mapsto> ''alice''], watcher := True\<rparr>"

definition example_bound :: world where
  "example_bound = example_world\<lparr>store := [''0x01:incoming-channel'' \<mapsto> ''alice'']\<rparr>"

text \<open>
  The environment in which the money handler rejects, and the account after its first
  claim for the channel met that environment.
\<close>

definition example_refusing :: validate_env where
  "example_refusing = example_env\<lparr>moneyHandler := (\<lambda>amount. Throws)\<rparr>"

definition example_retry :: world where
  "example_retry =
     snd (incoming_add (\<lambda>cachedChannel.
            validateClaim example_master example_refusing (example_claim ''1500000000'')
              cachedChannel 0) example_world)"

definition example_plugin :: plugin where
  "example_plugin = \<lparr>shared_store = Map.empty,
     accounts = [''alice'' \<mapsto> example_world,
                 ''bob'' \<mapsto> example_world\<lparr>account := example_account\<lparr>accountName := ''bob''\<rparr>\<rparr>]\<rparr>"

definition example_chain :: chain_env where
  "example_chain = \<lparr>
     signMessageHashRecoverableCompact = (\<lambda>address cid v. (''5e'', 1)),
     getGasPrice = Returns 1,
     prepareTransaction = (\<lambda>method. Returns 50000000),
     queueTransaction = (\<lambda>method. Returns ()),
     updateChannel = (\<lambda>n c. if n = 0 then Returns (Some c)
                             else Returns (Some (c\<lparr>value_c := 9000000000\<rparr>)))\<rparr>"

definition example_outgoing :: PaymentChannel where
  "example_outgoing = example_channel\<lparr>channelId := ''0x02'', sender := ''0xabc1'',
     receiver := ''0x5e4d'', spent := 1000000000, signature := Some ''0x5d1b''\<rparr>"

definition example_paying :: world where
  "example_paying = example_world\<lparr>account := example_account\<lparr>payoutAmount := 5 / 2,
     outgoing := Some example_outgoing\<rparr>\<rparr>"

text \<open>An account owing 2.5000000001 gwei, and one owing half a wei.\<close>

definition example_fraction :: world where
  "example_fraction = example_world\<lparr>account := example_account\<lparr>
     payoutAmount := 25000000001 / 10000000000, outgoing := Some example_outgoing\<rparr>\<rparr>"

definition example_dust :: world where
  "example_dust = example_world\<lparr>account := example_account\<lparr>
     payoutAmount := 1 / 2000000000, outgoing := Some example_outgoing\<rparr>\<rparr>"

text \<open>The contract's environment when the gas price cannot be read.\<close>

definition example_offline :: chain_env where
  "example_offline = example_chain\<lparr>getGasPrice := Throws\<rparr>"

definition example_disputed :: PaymentChannel where
  "example_disputed = example_channel\<lparr>disputedUntil := Some 1200, spent := 100000000,
     signature := Some ''0x5160''\<rparr>"

definition example_claiming :: world where
  "example_claiming = example_world\<lparr>account := example_account\<lparr>incoming := Some example_disputed\<rparr>,
     watcher := True\<rparr>"

definition example_handler :: handler_env where
  "example_handler = \<lparr>
     JSON_parse = (\<lambda>b. case b of Stringify j \<Rightarrow> Returns j | _ \<Rightarrow> Throws),
     getAddress = (\<lambda>address. Returns address),
     deserializeIlpPrepare = (\<lambda>b. if b = Bytes ''prepare 100'' then Returns 100
                                  else if b = Bytes ''prepare 101'' then Returns 101
                                  else if b = Bytes ''prepare 2'' then Returns 2 else Throws),
     dataHandler = (\<lambda>b. if b = Bytes ''prepare 100'' then Returns (Bytes ''fulfill'')
                        else Returns (Bytes ''reject'')),
     deserializeIlpReply = (\<lambda>b. if b = Bytes ''fulfill'' then Returns IlpFulfill
                                else if b = Bytes ''reject'' then Returns (IlpReject ''F99'')
                                else Throws),
     validation = example_env,
     chain = example_chain\<rparr>"

definition example_full :: world where
  "example_full = example_world\<lparr>account := example_account\<lparr>receivableBalance := 999\<rparr>\<rparr>"

definition example_ilp :: "string \<Rightarrow> BtpSubProtocol" where
  "example_ilp bytes =
     \<lparr>protocolName = ''ilp'', contentType = MIME_APPLICATION_OCTET_STREAM, data = Bytes bytes\<rparr>"

definition example_json :: "string \<Rightarrow> string \<Rightarrow> json" where
  "example_json v sig =
     JObject [(''channelId'', JString ''0x01''), (''signature'', JString sig),
              (''value'', JString v), (''contractAddress'', JString ''0xC0DE'')]"

definition example_claim_message :: "buffer \<Rightarrow> BtpSubProtocol" where
  "example_claim_message b =
     \<lparr>protocolName = ''machinomy'', contentType = MIME_APPLICATION_JSON, data = b\<rparr>"

section \<open>Evaluating the examples\<close>

text \<open>
  The definitions a concrete run unfolds.
\<close>

lemmas example_defs =
  example_master_def example_channel_def example_claim_def example_env_def example_world_def
  example_account_def

lemmas validate_defs =
  validateClaim.simps checkClaim_def linkChannel_def acceptClaim_def incoming_add_def commit_def
  Let_def toLowerCase_def channelKey_def log_def emit_def round_down_def wei_to_gwei_def
  floor_eq_iff passesChecks_def emitted_def

lemmas outgoing_defs =
  createClaim_def signClaim_def sendMoney_def outgoing_add_def depositQueue_add_def commit_def
  remainingInChannel_def spentFromChannel_def gwei_to_wei_def wei_to_gwei_def round_down_def
  Let_def log_def emit_def emitted_def floor_eq_iff

section \<open>Properties of claim validation\<close>

subsection \<open>Traces\<close>

lemma only_logged_iff:
  "only_logged w w' \<longleftrightarrow>
     account w' = account w \<and> store w' = store w \<and> watcher w' = watcher w
      \<and> depositQueue w' = depositQueue w
      \<and> (\<exists>evs. trace w' = trace w @ evs \<and> list_all quiet evs)"
proof -
  have "take (length (trace w)) (trace w') = trace w
          \<and> list_all quiet (drop (length (trace w)) (trace w'))
        \<longleftrightarrow> (\<exists>evs. trace w' = trace w @ evs \<and> list_all quiet evs)"
    by (metis append_eq_conv_conj)
  then show ?thesis
    unfolding only_logged_def by blast
qed

lemma only_logged_refl: "only_logged w w"
  by (simp add: only_logged_iff)

lemma only_logged_log:
  "only_logged w w1 \<Longrightarrow> quiet (Log lvl msg) \<Longrightarrow> only_logged w (log lvl msg w1)"
  by (auto simp: only_logged_iff log_def emit_def)

lemma only_logged_delay: "only_logged w w1 \<Longrightarrow> only_logged w (emit (Delay n) w1)"
  by (auto simp: only_logged_iff log_def emit_def)

lemma only_logged_trans: "only_logged a b \<Longrightarrow> only_logged b c \<Longrightarrow> only_logged a c"
  by (auto simp: only_logged_iff)

lemma only_logged_emitted:
  "only_logged w w' \<Longrightarrow> trace w' = trace w @ emitted w w' \<and> list_all quiet (emitted w w')"
  by (auto simp: only_logged_iff emitted_def)

lemma emitted_append: "trace w' = trace w @ evs \<Longrightarrow> emitted w w' = evs"
  by (simp add: emitted_def)

subsection \<open>The checks\<close>

lemma checked_value_is_finite:
  "\<not> isNegative b \<Longrightarrow> isGreaterThanOrEqualTo a b \<Longrightarrow> \<exists>x. b = Finite x \<and> 0 \<le> x \<and> x \<le> a"
  by (cases b) auto

lemma checkClaim_None:
  "checkClaim m e claim cachedChannel u = None \<longleftrightarrow>
     (case cachedChannel of
        None \<Rightarrow> toLowerCase (receiver u) = toLowerCase (wallet_address m)
                 \<and> disputePeriod u \<ge> minIncomingDisputePeriod m
      | Some c \<Rightarrow> claim_channelId claim = channelId c)
     \<and> \<not> isNegative (BigNumber e (claim_value claim))
     \<and> toLowerCase (claim_contractAddress claim) = toLowerCase (contract_address m)
     \<and> isValidClaimSignature e claim u"
  by (cases cachedChannel) (simp_all add: checkClaim_def)

lemma checkClaim_line:
  "checkClaim m e claim cachedChannel u = Some (lvl, msg) \<Longrightarrow> quiet (Log lvl msg)"
  by (auto simp: checkClaim_def split: if_splits)

lemma passesChecks_finite:
  assumes "passesChecks m e claim cachedChannel u"
  obtains v where "BigNumber e (claim_value claim) = Finite v" and "0 \<le> v" and "v \<le> value_c u"
  using assms checked_value_is_finite [of "BigNumber e (claim_value claim)" "value_c u"]
  by (auto simp: passesChecks_def checkClaim_None)

subsection \<open>One attempt, and all of them\<close>

lemma validateClaim_Throws:
  "fetched e claim cachedChannel attempts = Throws \<Longrightarrow>
   validateClaim m e claim cachedChannel attempts w = (Throws, w)"
  by (subst validateClaim.simps) (simp add: fetched_def Let_def)

lemma validateClaim_None:
  "fetched e claim cachedChannel attempts = Returns None \<Longrightarrow>
   validateClaim m e claim cachedChannel attempts w =
     (if cachedChannel = None then
        (if attempts > 20 then
           (Returns cachedChannel, log Debug ''Invalid claim: channel does not exist'' w)
         else validateClaim m e claim cachedChannel (attempts + 1) (emit (Delay 250) w))
      else (Returns cachedChannel, log Error ''Invalid claim: channel is unexpectedly closed'' w))"
  by (subst validateClaim.simps) (simp add: fetched_def Let_def)

lemma validateClaim_earlyReject:
  "fetched e claim cachedChannel attempts = Returns (Some u) \<Longrightarrow>
   checkClaim m e claim cachedChannel u = Some (lvl, msg) \<Longrightarrow>
   validateClaim m e claim cachedChannel attempts w = (Returns cachedChannel, log lvl msg w)"
  by (subst validateClaim.simps) (simp add: fetched_def Let_def)

lemma validateClaim_Some:
  "fetched e claim cachedChannel attempts = Returns (Some u) \<Longrightarrow>
   checkClaim m e claim cachedChannel u = None \<Longrightarrow>
   validateClaim m e claim cachedChannel attempts w =
     (if \<not> isGreaterThanOrEqualTo (value_c u) (BigNumber e (claim_value claim)) then
        (if attempts > 20 then
           (Returns cachedChannel, log Debug ''Invalid claim: value is above value of channel'' w)
         else validateClaim m e claim cachedChannel (attempts + 1) (emit (Delay 250) w))
      else linkChannel e claim cachedChannel u w)"
  by (subst validateClaim.simps) (simp add: fetched_def Let_def)

lemma outcome_reject: "only_logged w0 w1 \<Longrightarrow> outcome m e claim cached w0 (Returns cached, w1)"
  by (auto simp: outcome_def)

lemma outcome_throw: "only_logged w0 w1 \<Longrightarrow> outcome m e claim cached w0 (Throws, w1)"
  by (auto simp: outcome_def)

lemma outcome_link: "only_logged w0 w1 \<Longrightarrow> passesChecks m e claim cached u \<Longrightarrow>
   outcome m e claim cached w0 (linkChannel e claim cached u w1)"
  by (auto simp: outcome_def)

lemma validateClaim_outcome:
  "only_logged w0 w \<Longrightarrow> outcome m e claim cachedChannel w0 (validateClaim m e claim cachedChannel attempts w)"
proof (induction m e claim cachedChannel attempts w rule: validateClaim.induct)
  case (1 m e claim cachedChannel attempts w)
  note logged = \<open>only_logged w0 w\<close>
  show ?case
  proof (cases "fetched e claim cachedChannel attempts")
    case Throws
    then show ?thesis
      by (simp add: validateClaim_Throws outcome_throw logged)
  next
    case (Returns upd)
    show ?thesis
    proof (cases upd)
      case None
      with Returns have f: "fetched e claim cachedChannel attempts = Returns None" by simp
      show ?thesis
      proof (cases "cachedChannel = None \<and> \<not> attempts > 20")
        case True
        then have "validateClaim m e claim cachedChannel attempts w
                 = validateClaim m e claim cachedChannel (attempts + 1) (emit (Delay 250) w)"
          using validateClaim_None [OF f, of m w] by simp
        moreover have "outcome m e claim cachedChannel w0
            (validateClaim m e claim cachedChannel (attempts + 1) (emit (Delay 250) w))"
          using "1.IH"(1) f True logged
          by (auto simp: fetched_def only_logged_delay split: if_splits)
        ultimately show ?thesis by simp
      next
        case False
        then show ?thesis
          using validateClaim_None [OF f, of m w] outcome_reject [OF only_logged_log [OF logged]]
          by (cases "cachedChannel = None") simp_all
      qed
    next
      case (Some u)
      with Returns have f: "fetched e claim cachedChannel attempts = Returns (Some u)" by simp
      show ?thesis
      proof (cases "checkClaim m e claim cachedChannel u")
        case (Some line)
        then obtain lvl msg where line: "checkClaim m e claim cachedChannel u = Some (lvl, msg)"
          by (cases line) simp
        from validateClaim_earlyReject [OF f line, of w] show ?thesis
          using outcome_reject [OF only_logged_log [OF logged checkClaim_line [OF line]]] by simp
      next
        case ok: None
        note eq = validateClaim_Some [OF f ok, of w]
        show ?thesis
        proof (cases "isGreaterThanOrEqualTo (value_c u) (BigNumber e (claim_value claim))")
          case True
          then show ?thesis
            using eq ok outcome_link [OF logged, of m e claim cachedChannel u]
            by (simp add: passesChecks_def)
        next
          case insufficient: False
          show ?thesis
          proof (cases "attempts > 20")
            case True
            then show ?thesis
              using eq insufficient outcome_reject [OF only_logged_log [OF logged]] by simp
          next
            case False
            have "outcome m e claim cachedChannel w0
               (validateClaim m e claim cachedChannel (attempts + 1) (emit (Delay 250) w))"
              using "1.IH"(2) f ok insufficient False logged
              by (auto simp: fetched_def only_logged_delay split: if_splits)
            then show ?thesis
              using eq insufficient False by simp
          qed
        qed
      qed
    qed
  qed
qed

subsection \<open>The registry and the commit\<close>

lemma acceptClaim_account:
  "account (snd (acceptClaim e claim cachedChannel u w)) =
     (account w)\<lparr>receivableBalance := receivableBalance (account (snd (acceptClaim e claim cachedChannel u w)))\<rparr>"
  by (simp add: acceptClaim_def Let_def log_def emit_def)

lemma linkChannel_account:
  "account (snd (linkChannel e claim cachedChannel u w)) =
     (account w)\<lparr>receivableBalance := receivableBalance (account (snd (linkChannel e claim cachedChannel u w)))\<rparr>"
proof (cases "cachedChannel = None \<and> store w (channelKey (claim_channelId claim)) = None")
  case True
  then show ?thesis
    using acceptClaim_account [of e claim cachedChannel u
       "log Debug ''Incoming channel is now linked to account''
                 (w\<lparr>store := (store w)(channelKey (claim_channelId claim)
                                  \<mapsto> accountName (account w))\<rparr>)"]
    by (simp add: linkChannel_def log_def emit_def)
next
  case False
  then show ?thesis
    using acceptClaim_account [of e claim cachedChannel u w]
    by (auto simp: linkChannel_def log_def emit_def)
qed

lemma acceptClaim_trace:
  "\<exists>evs. trace (snd (acceptClaim e claim cachedChannel u w)) = trace w @ evs"
  by (simp add: acceptClaim_def Let_def log_def emit_def)

lemma acceptClaim_cached:
  assumes "acceptClaim e claim (Some c) u w = (res, w')"
    and "BigNumber e (claim_value claim) = Finite v" and "v \<le> value_c u" and "only_logged w0 w"
  shows "(res = Returns (Some c) \<and> only_logged w0 w') \<or> res = Throws
       \<or> (\<exists>c'. res = Returns (Some c') \<and> spent c' = v \<and> value_c c' = value_c u \<and> spent c < v
              \<and> channelId c' = claim_channelId claim)"
  using assms
  by (auto simp: acceptClaim_def Let_def only_logged_log split: if_splits)

text \<open>The registry step for a new channel.\<close>

lemma linkChannel_bound:
  assumes "store w (channelKey (claim_channelId claim)) = Some a"
  shows "linkChannel e claim None u w =
     (Returns None, log Debug ''Invalid claim: channel is already linked to a different account'' w)"
  using assms by (simp add: linkChannel_def)

lemma linkChannel_unbound:
  assumes "store w (channelKey (claim_channelId claim)) = None"
    and "linkChannel e claim None u w = (res, w')"
  shows "store w' = (store w)(channelKey (claim_channelId claim) \<mapsto> accountName (account w))
       \<and> (res = Throws \<or> (\<exists>c'. res = Returns (Some c') \<and> channelId c' = claim_channelId claim
                                \<and> value_c c' = value_c u
                                \<and> signature c' = Some (claim_signature claim)
                                \<and> spent c' = toNumber (BigNumber e (claim_value claim))))"
  using assms
  by (auto simp: linkChannel_def acceptClaim_def Let_def log_def emit_def split: if_splits)

lemma linkChannel_zero:
  assumes "store w (channelKey (claim_channelId claim)) = None"
    and "toNumber (BigNumber e (claim_value claim)) = 0"
    and "linkChannel e claim None u w = (res, w')"
  shows "account w' = account w \<and> watcher w' \<and> list_all (\<lambda>ev. \<forall>a. ev \<noteq> MoneyHandler a) (emitted w w')
       \<and> res \<noteq> Throws"
  using assms
  by (auto simp: linkChannel_def acceptClaim_def Let_def log_def emit_def emitted_def split: if_splits)

lemma linkChannel_cached_store:
  assumes "linkChannel e claim (Some c) u w = (res, w')"
  shows "store w' = store w"
  using assms
  by (auto simp: linkChannel_def acceptClaim_def Let_def log_def emit_def split: if_splits)

lemma channelKey_inject: "channelKey a = channelKey b \<longleftrightarrow> a = b"
  by (simp add: channelKey_def)

subsection \<open>What a call of validateClaim comes to\<close>

lemma validateClaim_account:
  "account (snd (validateClaim m e claim cachedChannel attempts w)) =
     (account w)\<lparr>receivableBalance :=
        receivableBalance (account (snd (validateClaim m e claim cachedChannel attempts w)))\<rparr>"
proof -
  from validateClaim_outcome [OF only_logged_refl, of m e claim cachedChannel w attempts]
  show ?thesis
    unfolding outcome_def
  proof (elim disjE exE conjE)
    fix w1 u
    assume "only_logged w w1"
      and "validateClaim m e claim cachedChannel attempts w = linkChannel e claim cachedChannel u w1"
    then show ?thesis
      using linkChannel_account [of e claim cachedChannel u w1]
      by (simp add: only_logged_iff)
  qed (auto simp: only_logged_iff)
qed

lemma validateClaim_incoming:
  "incoming (account (snd (validateClaim m e claim cachedChannel attempts w))) = incoming (account w)"
  using arg_cong [OF validateClaim_account [of m e claim cachedChannel attempts w], of incoming]
  by simp

lemma validateClaim_cached:
  assumes "validateClaim m e claim (Some c) attempts w = (res, w')"
  shows "(res = Returns (Some c) \<and> only_logged w w') \<or> res = Throws
       \<or> (\<exists>c'. res = Returns (Some c')
              \<and> BigNumber e (claim_value claim) = Finite (spent c')
              \<and> 0 < min (spent c') (value_c c') - spent c)"
proof -
  from validateClaim_outcome [OF only_logged_refl, of m e claim "Some c" w attempts]
  show ?thesis
    unfolding outcome_def
  proof (elim disjE exE conjE)
    fix w1 u
    assume logged: "only_logged w w1" and ok: "passesChecks m e claim (Some c) u"
      and eq: "validateClaim m e claim (Some c) attempts w = linkChannel e claim (Some c) u w1"
    from ok obtain v where v: "BigNumber e (claim_value claim) = Finite v" "v \<le> value_c u"
      by (rule passesChecks_finite)
    from eq assms have "acceptClaim e claim (Some c) u w1 = (res, w')"
      by (simp add: linkChannel_def)
    from acceptClaim_cached [OF this v logged] v show ?thesis
      by auto
  qed (use assms in auto)
qed

lemma validateClaim_new:
  assumes "validateClaim m e claim None attempts w = (res, w')"
  shows "((res = Returns None \<or> res = Throws) \<and> only_logged w w')
       \<or> (\<exists>w1 u. only_logged w w1 \<and> passesChecks m e claim None u
              \<and> store w (channelKey (claim_channelId claim)) = None
              \<and> linkChannel e claim None u w1 = (res, w'))"
proof -
  from validateClaim_outcome [OF only_logged_refl, of m e claim None w attempts]
  show ?thesis
    unfolding outcome_def
  proof (elim disjE exE conjE)
    fix w1 u
    assume logged: "only_logged w w1" and ok: "passesChecks m e claim None u"
      and eq: "validateClaim m e claim None attempts w = linkChannel e claim None u w1"
    show ?thesis
    proof (cases "store w1 (channelKey (claim_channelId claim))")
      case None
      then show ?thesis
        using logged ok eq assms by (auto simp: only_logged_iff)
    next
      case (Some a)
      from linkChannel_bound [OF Some, of e u] eq assms
      have "res = Returns None" and "w' = log Debug ''Invalid claim: channel is already linked to a different account'' w1"
        by simp_all
      then show ?thesis
        using only_logged_log [OF logged] by simp
    qed
  qed (use assms in auto)
qed

lemma validateClaim_rejected:
  assumes "validateClaim m e claim cachedChannel attempts w = (Returns cachedChannel, w')"
  shows "only_logged w w'"
proof (cases cachedChannel)
  case None
  from validateClaim_new [OF assms [unfolded None]] show ?thesis
  proof (elim disjE exE conjE)
    fix w1 u
    assume logged: "only_logged w w1"
      and unbound: "store w (channelKey (claim_channelId claim)) = None"
      and link: "linkChannel e claim None u w1 = (Returns None, w')"
    from logged unbound have "store w1 (channelKey (claim_channelId claim)) = None"
      by (simp add: only_logged_iff)
    from linkChannel_unbound [OF this link] show ?thesis by simp
  qed
next
  case (Some c)
  from validateClaim_cached [OF assms [unfolded Some]] show ?thesis
    by auto
qed

lemma validateClaim_registry:
  assumes "validateClaim m e claim cachedChannel attempts w = (res, w')"
  shows "(store w' = store w
          \<and> (\<forall>c'. res = Returns (Some c') \<longrightarrow>
                 (\<exists>c. cachedChannel = Some c \<and> channelId c' = channelId c)))
       \<or> (cachedChannel = None \<and> store w (channelKey (claim_channelId claim)) = None
          \<and> store w' = (store w)(channelKey (claim_channelId claim) \<mapsto> accountName (account w))
          \<and> (res = Throws
              \<or> (\<exists>c'. res = Returns (Some c') \<and> channelId c' = claim_channelId claim)))"
proof (cases cachedChannel)
  case None
  from validateClaim_new [OF assms [unfolded None]] show ?thesis
  proof (elim disjE exE conjE)
    fix w1 u
    assume logged: "only_logged w w1"
      and unbound: "store w (channelKey (claim_channelId claim)) = None"
      and link: "linkChannel e claim None u w1 = (res, w')"
    from logged unbound have "store w1 (channelKey (claim_channelId claim)) = None"
      by (simp add: only_logged_iff)
    from linkChannel_unbound [OF this link] logged unbound None show ?thesis
      by (auto simp: only_logged_iff)
  qed (auto simp: only_logged_iff)
next
  case (Some c)
  from validateClaim_outcome [OF only_logged_refl, of m e claim "Some c" w attempts]
  show ?thesis
    unfolding outcome_def
  proof (elim disjE exE conjE)
    fix w1 u
    assume logged: "only_logged w w1" and ok: "passesChecks m e claim (Some c) u"
      and eq: "validateClaim m e claim (Some c) attempts w = linkChannel e claim (Some c) u w1"
    from eq assms Some have link: "linkChannel e claim (Some c) u w1 = (res, w')"
      by simp
    then have accept: "acceptClaim e claim (Some c) u w1 = (res, w')"
      by (simp add: linkChannel_def)
    from ok obtain v where v: "BigNumber e (claim_value claim) = Finite v" "v \<le> value_c u"
      by (rule passesChecks_finite)
    from ok have same: "claim_channelId claim = channelId c"
      by (simp add: passesChecks_def checkClaim_None)
    from acceptClaim_cached [OF accept v logged] linkChannel_cached_store [OF link] logged same Some
    show ?thesis
      by (auto simp: only_logged_iff)
  qed (use assms Some in \<open>auto simp: only_logged_iff\<close>)
qed

lemma validateClaim_registry_cases [consumes 1, case_names same new]:
  assumes "validateClaim m e claim cachedChannel attempts w = (res, w')"
  obtains (same) "store w' = store w"
      "\<forall>c'. res = Returns (Some c') \<longrightarrow>
                 (\<exists>c. cachedChannel = Some c \<and> channelId c' = channelId c)"
    | (new) "cachedChannel = None" "store w (channelKey (claim_channelId claim)) = None"
      "store w' = (store w)(channelKey (claim_channelId claim) \<mapsto> accountName (account w))"
      "res = Throws \<or> (\<exists>c'. res = Returns (Some c') \<and> channelId c' = claim_channelId claim)"
proof -
  from validateClaim_registry [OF assms] show thesis
  proof (rule disjE)
    assume "store w' = store w
          \<and> (\<forall>c'. res = Returns (Some c') \<longrightarrow>
                 (\<exists>c. cachedChannel = Some c \<and> channelId c' = channelId c))"
    then show thesis by (elim conjE) (rule same)
  next
    assume "cachedChannel = None \<and> store w (channelKey (claim_channelId claim)) = None
          \<and> store w' = (store w)(channelKey (claim_channelId claim) \<mapsto> accountName (account w))
          \<and> (res = Throws
              \<or> (\<exists>c'. res = Returns (Some c') \<and> channelId c' = claim_channelId claim))"
    then show thesis by (elim conjE) (rule new)
  qed
qed

subsection \<open>Best claims only\<close>

lemma step_monotone:
  fixes m e claim w
  defines "w' \<equiv> snd (incoming_add (\<lambda>cachedChannel. validateClaim m e claim cachedChannel 0) w)"
  assumes "incoming (account w) = Some c"
  shows "incoming (account w') = Some c
       \<or> (\<exists>c'. incoming (account w') = Some c' \<and> spent c < spent c')"
proof -
  obtain res w1 where run: "validateClaim m e claim (Some c) 0 w = (res, w1)"
    by (cases "validateClaim m e claim (Some c) 0 w")
  have acc: "incoming (account w1) = Some c"
    using validateClaim_incoming [of m e claim "Some c" 0 w] run assms(2) by simp
  have w': "incoming (account w') = commit (Some c) res"
    using run acc assms(2) by (simp add: w'_def incoming_add_def)
  from validateClaim_cached [OF run] show ?thesis
    using w' by (auto simp: commit_def)
qed

lemma advances_trans: "advances a b \<Longrightarrow> advances b c \<Longrightarrow> advances a c"
  by (auto simp: advances_def)

lemma validateAll_later:
  "incoming (account w) = Some c \<Longrightarrow>
   c' \<in> set (List.map_filter (\<lambda>w'. incoming (account w')) (validateAll m tasks w)) \<Longrightarrow>
   advances c c'"
proof (induction tasks arbitrary: w c)
  case Nil
  then show ?case by (simp add: map_filter_simps)
next
  case (Cons task tasks)
  obtain e claim where task: "task = (e, claim)" by (cases task)
  define w1 where "w1 = snd (incoming_add (\<lambda>cachedChannel. validateClaim m e claim cachedChannel 0) w)"
  from step_monotone [OF Cons.prems(1), of m e claim]
  obtain c1 where c1: "incoming (account w1) = Some c1" "advances c c1"
    by (auto simp: w1_def advances_def)
  from Cons.prems(2) have "c' = c1 \<or> c' \<in> set (List.map_filter (\<lambda>w'. incoming (account w')) (validateAll m tasks w1))"
    by (simp add: task w1_def [symmetric] Let_def map_filter_simps c1)
  then show ?case
    using c1 Cons.IH [OF c1(1)] advances_trans by blast
qed

lemma validateAll_sorted:
  "sorted_wrt advances (List.map_filter (\<lambda>w'. incoming (account w')) (validateAll m tasks w))"
proof (induction tasks arbitrary: w)
  case Nil
  then show ?case by (simp add: map_filter_simps)
next
  case (Cons task tasks)
  obtain e claim where task: "task = (e, claim)" by (cases task)
  define w1 where "w1 = snd (incoming_add (\<lambda>cachedChannel. validateClaim m e claim cachedChannel 0) w)"
  show ?case
  proof (cases "incoming (account w1)")
    case None
    then show ?thesis
      using Cons.IH [of w1] by (simp add: task w1_def [symmetric] Let_def map_filter_simps)
  next
    case (Some c1)
    then show ?thesis
      using Cons.IH [of w1] validateAll_later [OF Some, of _ m tasks]
      by (simp add: task w1_def [symmetric] Let_def map_filter_simps)
  qed
qed

lemma committedClaims_sorted:
  "sorted_wrt advances (committedClaims m tasks w)"
proof (cases "incoming (account w)")
  case None
  then show ?thesis
    using validateAll_sorted [of m tasks w] by (simp add: committedClaims_def map_filter_simps)
next
  case (Some c)
  then show ?thesis
    using validateAll_sorted [of m tasks w] validateAll_later [OF Some, of _ m tasks]
    by (simp add: committedClaims_def map_filter_simps)
qed

text \<open>
  C1. When \<open>validateClaim\<close> runs with a cached claim \<open>c\<close>, it commits a new claim only
  when \<open>min(claim.value, channel.value) - c.spent\<close> is strictly positive; otherwise it returns
  \<open>c\<close> after doing nothing but log and wait, or it throws and the queue keeps \<open>c\<close>.
  Hence in any run of the incoming queue over claims, two claims committed one after the
  other are the same state or the later has strictly more \<open>spent\<close>: the committed
  \<open>spent\<close> values never decrease.
\<close>

theorem validateClaim_best_claim_only:
  assumes "validateClaim m e claim (Some c) attempts w = (res, w')"
  shows "((res = Returns (Some c) \<and> only_logged w w') \<or> res = Throws
          \<or> (\<exists>c'. res = Returns (Some c')
                 \<and> BigNumber e (claim_value claim) = Finite (spent c')
                 \<and> 0 < min (spent c') (value_c c') - spent c))
       \<and> sorted_wrt (\<lambda>a b. a = b \<or> spent a < spent b) (committedClaims m tasks w0)
       \<and> sorted (map spent (committedClaims m tasks w0))"
proof -
  have strict: "sorted_wrt (\<lambda>a b. a = b \<or> spent a < spent b) (committedClaims m tasks w0)"
    using committedClaims_sorted [of m tasks w0] by (simp add: advances_def [abs_def])
  then have "sorted_wrt (\<lambda>a b. spent a \<le> spent b) (committedClaims m tasks w0)"
    by (rule sorted_wrt_mono_rel [rotated]) auto
  then have "sorted (map spent (committedClaims m tasks w0))"
    by (simp add: sorted_map)
  with strict validateClaim_cached [OF assms] show ?thesis
    by blast
qed

theorem validateClaim_best_claim_only_witness:
  "fst (validateClaim example_master example_env (example_claim ''1500000000'')
          (incoming (account example_linked)) 0 example_linked)
     = Returns (Some (example_channel\<lparr>contractAddress := ''0xC0DE'',
                        signature := Some ''0x5161'', spent := 1500000000\<rparr>))
   \<and> fst (validateClaim example_master example_env (example_claim ''0'')
          (incoming (account example_linked)) 0 example_linked)
     = Returns (incoming (account example_linked))
   \<and> map spent (committedClaims example_master
        [(example_env, example_claim ''1500000000''), (example_env, example_claim ''0''),
         (example_env, example_claim ''2500000000'')] example_linked)
     = [1000000000, 1500000000, 1500000000, 2500000000]
   \<and> sorted (map spent (committedClaims example_master
        [(example_env, example_claim ''1500000000''), (example_env, example_claim ''0''),
         (example_env, example_claim ''2500000000'')] example_linked))"
proof -
  let ?c = "example_channel\<lparr>signature := Some ''0x5160'', spent := 1000000000\<rparr>"
  let ?run = "validateClaim example_master example_env (example_claim ''1500000000'')
                (Some ?c) 0 example_linked"
  have run: "?run = (fst ?run, snd ?run)"
    by simp
  have cached: "incoming (account example_linked) = Some ?c"
    by (simp add: example_defs example_linked_def)
  have accepted: "fst ?run = Returns (Some (example_channel\<lparr>contractAddress := ''0xC0DE'',
                        signature := Some ''0x5161'', spent := 1500000000\<rparr>))"
    by (simp add: example_defs example_linked_def validate_defs)
  have rejected: "fst (validateClaim example_master example_env (example_claim ''0'')
          (Some ?c) 0 example_linked) = Returns (Some ?c)"
    by (simp add: example_defs example_linked_def validate_defs)
  have spents: "map spent (committedClaims example_master
        [(example_env, example_claim ''1500000000''), (example_env, example_claim ''0''),
         (example_env, example_claim ''2500000000'')] example_linked)
     = [1000000000, 1500000000, 1500000000, 2500000000]"
    by (simp add: committedClaims_def map_filter_simps example_defs example_linked_def validate_defs)
  from validateClaim_best_claim_only [OF run, of
        "[(example_env, example_claim ''1500000000''), (example_env, example_claim ''0''),
         (example_env, example_claim ''2500000000'')]" example_linked]
  show ?thesis
    using cached accepted rejected spents by simp
qed

subsection \<open>The proof of channel\<close>

text \<open>
  C10. When \<open>validateClaim\<close> accepts a claim whose increment is zero, the claim is the first
  one of a new channel and its value is zero; the money handler is not called and the
  account, with its three balances, is as before, while the state returned has
  \<open>spent = 0\<close> and the signature of the claim.
\<close>

theorem proof_of_channel_claim:
  assumes run: "validateClaim m e claim cachedChannel attempts w = (Returns (Some c'), w')"
    and accepted: "Some c' \<noteq> cachedChannel"
    and zero: "min (toNumber (BigNumber e (claim_value claim))) (value_c c')
                 - (case cachedChannel of Some c \<Rightarrow> spent c | None \<Rightarrow> 0) = 0"
  shows "cachedChannel = None \<and> BigNumber e (claim_value claim) = Finite 0
       \<and> list_all (\<lambda>ev. \<forall>a. ev \<noteq> MoneyHandler a) (emitted w w')
       \<and> account w' = account w
       \<and> spent c' = 0 \<and> signature c' = Some (claim_signature claim)"
proof (cases cachedChannel)
  case (Some c)
  from validateClaim_cached [OF run [unfolded Some]] accepted zero Some
  show ?thesis by auto
next
  case None
  from validateClaim_new [OF run [unfolded None]]
  obtain w1 u where logged: "only_logged w w1" and ok: "passesChecks m e claim None u"
    and unbound: "store w (channelKey (claim_channelId claim)) = None"
    and link: "linkChannel e claim None u w1 = (Returns (Some c'), w')"
    by auto
  from logged unbound have unbound1: "store w1 (channelKey (claim_channelId claim)) = None"
    by (simp add: only_logged_iff)
  from ok obtain v where v: "BigNumber e (claim_value claim) = Finite v" "0 \<le> v" "v \<le> value_c u"
    by (rule passesChecks_finite)
  from linkChannel_unbound [OF unbound1 link] v
  have c': "value_c c' = value_c u" "signature c' = Some (claim_signature claim)" "spent c' = v"
    by auto
  with zero v None have "v = 0" by simp
  from linkChannel_zero [OF unbound1 _ link] v \<open>v = 0\<close>
  have acc: "account w' = account w1"
    and quiet1: "list_all (\<lambda>ev. \<forall>a. ev \<noteq> MoneyHandler a) (emitted w1 w')"
    by simp_all
  obtain evs where evs: "trace w' = trace w1 @ evs"
    using acceptClaim_trace [of e claim None u
       "log Debug ''Incoming channel is now linked to account''
          (w1\<lparr>store := (store w1)(channelKey (claim_channelId claim) \<mapsto> accountName (account w1))\<rparr>)"]
      link unbound1
    by (auto simp: linkChannel_def log_def emit_def)
  obtain evs1 where evs1: "trace w1 = trace w @ evs1" "list_all quiet evs1"
    using logged by (auto simp: only_logged_iff)
  have "emitted w w' = evs1 @ evs" "emitted w1 w' = evs"
    using evs evs1 by (simp_all add: emitted_def)
  moreover have "list_all (\<lambda>ev. \<forall>a. ev \<noteq> MoneyHandler a) evs1"
    using evs1(2) by (auto simp: list_all_iff)
  ultimately have "list_all (\<lambda>ev. \<forall>a. ev \<noteq> MoneyHandler a) (emitted w w')"
    using quiet1 by simp
  with None v \<open>v = 0\<close> c' acc logged show ?thesis
    by (simp add: only_logged_iff)
qed

theorem proof_of_channel_claim_witness:
  "fst (validateClaim example_master example_env (example_claim ''0'') None 0 example_world)
     = Returns (Some (example_channel\<lparr>contractAddress := ''0xC0DE'',
                        signature := Some ''0x5161'', spent := 0\<rparr>))
   \<and> BigNumber example_env (claim_value (example_claim ''0'')) = Finite 0
   \<and> account (snd (validateClaim example_master example_env (example_claim ''0'') None 0 example_world))
     = example_account
   \<and> list_all (\<lambda>ev. \<forall>a. ev \<noteq> MoneyHandler a)
        (emitted example_world
           (snd (validateClaim example_master example_env (example_claim ''0'') None 0 example_world)))"
proof -
  let ?run = "validateClaim example_master example_env (example_claim ''0'') None 0 example_world"
  let ?c = "example_channel\<lparr>contractAddress := ''0xC0DE'', signature := Some ''0x5161'', spent := 0\<rparr>"
  have accepted: "fst ?run = Returns (Some ?c)"
    by (simp add: example_defs validate_defs)
  then have run: "?run = (Returns (Some ?c), snd ?run)"
    by (simp add: prod_eq_iff)
  have new: "Some ?c \<noteq> (None :: PaymentChannel option)" by simp
  have zero: "min (toNumber (BigNumber example_env (claim_value (example_claim ''0'')))) (value_c ?c)
                 - (case (None :: PaymentChannel option) of Some c \<Rightarrow> spent c | None \<Rightarrow> 0) = 0"
    by (simp add: example_defs)
  have acct: "account example_world = example_account"
    by (simp add: example_defs)
  from proof_of_channel_claim [OF run new zero] accepted acct show ?thesis
    by simp
qed

subsection \<open>One account per channel\<close>

lemma handleClaim_registered:
  assumes "registered p"
  shows "registered (handleClaim m e claim name p)"
proof (cases "accounts p name")
  case None
  then show ?thesis using assms by (simp add: handleClaim_def)
next
  case (Some w)
  define w0 where "w0 = w\<lparr>store := shared_store p\<rparr>"
  obtain res w1 where run: "validateClaim m e claim (incoming (account w0)) 0 w0 = (res, w1)"
    by (cases "validateClaim m e claim (incoming (account w0)) 0 w0")
  define w' where "w' = w1\<lparr>account := (account w1)\<lparr>incoming := commit (incoming (account w1)) res\<rparr>\<rparr>"
  have p': "handleClaim m e claim name p = p\<lparr>shared_store := store w', accounts := (accounts p)(name \<mapsto> w')\<rparr>"
    using Some run by (simp add: handleClaim_def incoming_add_def w0_def w'_def Let_def)
  have name: "accountName (account w) = name"
    and held: "\<And>c. incoming (account w) = Some c \<Longrightarrow> shared_store p (channelKey (channelId c)) = Some name"
    using assms Some by (auto simp: registered_def)
  have acc1: "account w1 = (account w0)\<lparr>receivableBalance := receivableBalance (account w1)\<rparr>"
    using validateClaim_account [of m e claim "incoming (account w0)" 0 w0] run by simp
  have name': "accountName (account w') = name"
    using arg_cong [OF acc1, of accountName] name by (simp add: w'_def w0_def)
  have inc1: "incoming (account w1) = incoming (account w)"
    using arg_cong [OF acc1, of incoming] by (simp add: w0_def)
  have inc': "incoming (account w') = commit (incoming (account w)) res"
    by (simp add: w'_def inc1)
  have store': "store w' = store w1" by (simp add: w'_def)
  have w0: "store w0 = shared_store p" "accountName (account w0) = name" "incoming (account w0) = incoming (account w)"
    using name by (simp_all add: w0_def)
  let ?key = "channelKey (claim_channelId claim)"
  have kept: "store w' k = Some a" if k: "shared_store p k = Some a" for k a
    using run
  proof (cases rule: validateClaim_registry_cases)
    case same
    then show ?thesis using k w0 store' by simp
  next
    case new
    have "k \<noteq> ?key"
    proof
      assume "k = ?key"
      with k new(2) w0(1) show False by simp
    qed
    then show ?thesis using new(3) k w0(1) store' by simp
  qed
  have own: "store w' (channelKey (channelId c')) = Some name" if c': "incoming (account w') = Some c'" for c'
    using run
  proof (cases rule: validateClaim_registry_cases)
    case same
    have "\<exists>c. incoming (account w) = Some c \<and> channelId c' = channelId c"
    proof (cases res)
      case Throws
      then show ?thesis using c' inc' by (simp add: commit_def)
    next
      case (Returns r)
      then have "res = Returns (Some c')" using c' inc' by (simp add: commit_def)
      with same w0 show ?thesis by simp
    qed
    then obtain c where "incoming (account w) = Some c" "channelId c' = channelId c"
      by blast
    then show ?thesis
      using held [of c] same store' w0 by simp
  next
    case new
    from new(4) show ?thesis
    proof
      assume "res = Throws"
      then show ?thesis using c' inc' new w0 by (simp add: commit_def)
    next
      assume "\<exists>c'. res = Returns (Some c') \<and> channelId c' = claim_channelId claim"
      then have "channelId c' = claim_channelId claim"
        using c' inc' by (auto simp: commit_def)
      then show ?thesis
        using new store' w0 by simp
    qed
  qed
  show ?thesis
    unfolding registered_def
  proof (intro allI impI conjI)
    fix n wn
    assume n: "accounts (handleClaim m e claim name p) n = Some wn"
    show "accountName (account wn) = n"
    proof (cases "n = name")
      case True
      then show ?thesis using n name' by (simp add: p')
    next
      case False
      then have "accounts p n = Some wn" using n by (simp add: p')
      with assms show ?thesis by (simp add: registered_def)
    qed
    fix c
    assume c: "incoming (account wn) = Some c"
    show "shared_store (handleClaim m e claim name p) (channelKey (channelId c)) = Some n"
    proof (cases "n = name")
      case True
      then show ?thesis using n c own by (simp add: p')
    next
      case False
      then have "accounts p n = Some wn" using n by (simp add: p')
      with assms c have "shared_store p (channelKey (channelId c)) = Some n"
        by (auto simp: registered_def)
      then show ?thesis using kept by (simp add: p')
    qed
  qed
qed

lemma handleClaims_registered:
  "registered p \<Longrightarrow> registered (handleClaims m tasks p)"
  by (induction m tasks p rule: handleClaims.induct) (simp_all add: handleClaim_registered)

lemma registered_distinct:
  assumes "registered p"
    and "accounts p a = Some wa" and "incoming (account wa) = Some ca"
    and "accounts p b = Some wb" and "incoming (account wb) = Some cb"
    and "channelId ca = channelId cb"
  shows "a = b"
proof -
  from assms(1,2,3) have "shared_store p (channelKey (channelId ca)) = Some a"
    unfolding registered_def by blast
  moreover from assms(1,4,5) have "shared_store p (channelKey (channelId cb)) = Some b"
    unfolding registered_def by blast
  ultimately show ?thesis using assms(6) by simp
qed

text \<open>
  What \<open>validateClaim\<close> does with the registry on the first claim of a channel. It reads
  the registry under the claim's channel id after every other check. If the id is bound
  there, to any account name, the claim is not accepted and nothing changes but the log.
  If it is free and the channel passes the checks, the claim is not rejected and the id is
  bound to this account. Whenever a first claim is accepted the id was free and is now
  bound to this account, and the state returned carries that id. Hence, over any sequence
  of claims handled for any accounts from a state where each held channel is bound to its
  holder, each held channel stays bound to its holder and no two accounts hold the same
  channel id.
\<close>

lemma validateClaim_first_claim:
  assumes run: "validateClaim m e claim None attempts w = (res, w')"
    and inv: "registered p"
  shows "(store w (channelKey (claim_channelId claim)) \<noteq> None \<longrightarrow>
            (res = Returns None \<or> res = Throws) \<and> only_logged w w')
       \<and> (store w (channelKey (claim_channelId claim)) = None
            \<and> fetchChannel e attempts = Returns (Some u) \<and> passesChecks m e claim None u \<longrightarrow>
            res \<noteq> Returns None
            \<and> store w' = (store w)(channelKey (claim_channelId claim) \<mapsto> accountName (account w)))
       \<and> (\<forall>c'. res = Returns (Some c') \<longrightarrow>
            store w (channelKey (claim_channelId claim)) = None
            \<and> store w' = (store w)(channelKey (claim_channelId claim) \<mapsto> accountName (account w))
            \<and> channelId c' = claim_channelId claim)
       \<and> registered (handleClaims m' tasks p)
       \<and> (\<forall>a b wa wb ca cb.
            accounts (handleClaims m' tasks p) a = Some wa \<and> incoming (account wa) = Some ca
            \<and> accounts (handleClaims m' tasks p) b = Some wb \<and> incoming (account wb) = Some cb
            \<and> channelId ca = channelId cb \<longrightarrow> a = b)"
proof -
  let ?key = "channelKey (claim_channelId claim)"
  have bound: "(res = Returns None \<or> res = Throws) \<and> only_logged w w'" if "store w ?key \<noteq> None"
    using validateClaim_new [OF run] that by auto
  have unbound: "res \<noteq> Returns None \<and> store w' = (store w)(?key \<mapsto> accountName (account w))"
    if free: "store w ?key = None" and f: "fetchChannel e attempts = Returns (Some u)"
      and ok: "passesChecks m e claim None u"
  proof -
    from f have "fetched e claim None attempts = Returns (Some u)"
      by (simp add: fetched_def)
    from validateClaim_Some [OF this, of m w] ok run
    have "linkChannel e claim None u w = (res, w')"
      by (simp add: passesChecks_def)
    from linkChannel_unbound [OF free this] show ?thesis by auto
  qed
  have accepted: "store w ?key = None
            \<and> store w' = (store w)(?key \<mapsto> accountName (account w))
            \<and> channelId c' = claim_channelId claim" if "res = Returns (Some c')" for c'
    using run that by (cases rule: validateClaim_registry_cases) auto
  have reg: "registered (handleClaims m' tasks p)"
    using inv by (rule handleClaims_registered)
  have distinct: "a = b"
    if "accounts (handleClaims m' tasks p) a = Some wa \<and> incoming (account wa) = Some ca
            \<and> accounts (handleClaims m' tasks p) b = Some wb \<and> incoming (account wb) = Some cb
            \<and> channelId ca = channelId cb" for a b wa wb ca cb
    using registered_distinct [OF reg, of a wa ca b wb cb] that by simp
  show ?thesis
  proof (intro conjI impI allI)
    fix c' assume "res = Returns (Some c')"
    from accepted [OF this]
    show "store w ?key = None"
      and "store w' = (store w)(?key \<mapsto> accountName (account w))"
      and "channelId c' = claim_channelId claim"
      by simp_all
  qed (use bound unbound reg distinct in simp_all)
qed

lemma validateClaim_first_claim_example:
  "registered example_plugin
   \<and> fst (validateClaim example_master example_env (example_claim ''0'') None 0 example_world)
       = Returns (Some (example_channel\<lparr>contractAddress := ''0xC0DE'',
                          signature := Some ''0x5161'', spent := 0\<rparr>))
   \<and> store (snd (validateClaim example_master example_env (example_claim ''0'') None 0 example_world))
         ''0x01:incoming-channel'' = Some ''alice''
   \<and> fst (validateClaim example_master example_env (example_claim ''0'') None 0 example_bound)
       = Returns None
   \<and> registered (handleClaims example_master
         [(''alice'', example_env, example_claim ''0''), (''bob'', example_env, example_claim ''0'')]
         example_plugin)"
proof -
  let ?run = "validateClaim example_master example_env (example_claim ''0'') None 0 example_world"
  have run: "?run = (fst ?run, snd ?run)" by simp
  have inv: "registered example_plugin"
    by (simp add: registered_def example_defs example_bound_def example_plugin_def)
  have accepted: "fst ?run = Returns (Some (example_channel\<lparr>contractAddress := ''0xC0DE'',
                          signature := Some ''0x5161'', spent := 0\<rparr>))"
    by (simp add: example_defs example_bound_def example_plugin_def validate_defs)
  have free: "store example_world (channelKey (claim_channelId (example_claim ''0''))) = None"
    by (simp add: example_defs example_bound_def example_plugin_def)
  have key: "channelKey (claim_channelId (example_claim ''0'')) = ''0x01:incoming-channel''"
    by (simp add: example_defs example_bound_def example_plugin_def channelKey_def)
  have acct: "accountName (account example_world) = ''alice''"
    by (simp add: example_defs example_bound_def example_plugin_def)
  have rejected: "fst (validateClaim example_master example_env (example_claim ''0'') None 0 example_bound)
       = Returns None"
    by (simp add: example_defs example_bound_def example_plugin_def validate_defs)
  from validateClaim_first_claim [OF run inv, of example_channel example_master
      "[(''alice'', example_env, example_claim ''0''), (''bob'', example_env, example_claim ''0'')]"]
  show ?thesis
    using inv accepted free rejected by (simp add: key acct)
qed


text \<open>
  C3. A first claim is to be turned away exactly when the registry binds its channel to a
  different account. The account \<open>alice\<close> holds no incoming channel; its first claim for
  the channel \<open>0x01\<close> was bound in the registry and then lost, because the money handler
  rejected (\<open>example_retry\<close>). The registry now binds \<open>0x01\<close> to \<open>alice\<close> itself and to
  no other account. The same claim, valid in every other respect, is turned away with the
  line that the channel is linked to a different account, and the account still holds no
  channel.
\<close>

theorem first_claim_registry_same_account:
  "accountName (account example_world) = ''alice''
   \<and> store example_world (channelKey (claim_channelId (example_claim ''1500000000''))) = None
   \<and> fst (incoming_add (\<lambda>cachedChannel.
            validateClaim example_master example_refusing (example_claim ''1500000000'')
              cachedChannel 0) example_world) = Throws
   \<and> accountName (account example_retry) = ''alice''
   \<and> incoming (account example_retry) = None
   \<and> store example_retry (channelKey (claim_channelId (example_claim ''1500000000'')))
       = Some ''alice''
   \<and> fetchChannel example_env 0 = Returns (Some example_channel)
   \<and> passesChecks example_master example_env (example_claim ''1500000000'') None example_channel
   \<and> validateClaim example_master example_env (example_claim ''1500000000'') None 0 example_retry
       = (Returns None,
          log Debug ''Invalid claim: channel is already linked to a different account''
            example_retry)
   \<and> incoming (account (snd (incoming_add (\<lambda>cachedChannel.
            validateClaim example_master example_env (example_claim ''1500000000'')
              cachedChannel 0) example_retry))) = None"
  by (simp add: example_defs example_refusing_def example_retry_def validate_defs)

section \<open>Properties of outgoing settlement\<close>

lemma signClaim_fields:
  "spent (signClaim e v c) = v" "value_c (signClaim e v c) = value_c c"
  "channelId (signClaim e v c) = channelId c" "contractAddress (signClaim e v c) = contractAddress c"
  "sender (signClaim e v c) = sender c" "receiver (signClaim e v c) = receiver c"
  "disputePeriod (signClaim e v c) = disputePeriod c" "disputedUntil (signClaim e v c) = disputedUntil c"
  "signature (signClaim e v c) \<noteq> None"
  by (simp_all add: signClaim_def split: prod.splits)

lemma round_down_pos: "0 \<le> x \<Longrightarrow> round_down x = of_int \<lfloor>x\<rfloor>"
  by (simp add: round_down_def)

text \<open>The two ways \<open>createClaim\<close> can go.\<close>

lemma createClaim_noop:
  assumes "gwei_to_wei (payoutAmount (account w)) \<le> 0 \<or> cachedChannel = None
           \<or> \<not> 0 < remainingInChannel (the cachedChannel)"
  shows "fst (createClaim e cachedChannel w) = Returns cachedChannel"
    and "account (snd (createClaim e cachedChannel w)) = account w"
    and "store (snd (createClaim e cachedChannel w)) = store w"
    and "depositQueue (snd (createClaim e cachedChannel w)) = depositQueue w"
    and "watcher (snd (createClaim e cachedChannel w)) = watcher w"
    and "list_all (\<lambda>ev. \<forall>c. ev \<noteq> SendClaim c) (emitted w (snd (createClaim e cachedChannel w)))"
  using assms
  by (auto simp: createClaim_def Let_def log_def emit_def emitted_def split: option.splits)

lemma createClaim_claim:
  assumes "0 < gwei_to_wei (payoutAmount (account w))" and "0 < remainingInChannel c"
  defines "i \<equiv> min (remainingInChannel c) (gwei_to_wei (payoutAmount (account w)))"
  shows "fst (createClaim e (Some c) w) = Returns (Some (signClaim e (spent c + i) c))"
    and "account (snd (createClaim e (Some c) w)) =
           (account w)\<lparr>payableBalance := payableBalance (account w) - of_int \<lfloor>i / 1000000000\<rfloor>,
                        payoutAmount := min 0 (payoutAmount (account w) - of_int \<lfloor>i / 1000000000\<rfloor>)\<rparr>"
    and "depositQueue (snd (createClaim e (Some c) w)) = depositQueue w"
    and "0 < i"
proof -
  show pos: "0 < i" using assms by (simp add: i_def)
  then have "round_down (wei_to_gwei i) = of_int \<lfloor>i / 1000000000\<rfloor>"
    by (simp add: round_down_pos wei_to_gwei_def)
  then show "fst (createClaim e (Some c) w) = Returns (Some (signClaim e (spent c + i) c))"
    and "account (snd (createClaim e (Some c) w)) =
           (account w)\<lparr>payableBalance := payableBalance (account w) - of_int \<lfloor>i / 1000000000\<rfloor>,
                        payoutAmount := min 0 (payoutAmount (account w) - of_int \<lfloor>i / 1000000000\<rfloor>)\<rparr>"
    and "depositQueue (snd (createClaim e (Some c) w)) = depositQueue w"
    using assms(1,2)
    by (simp_all add: createClaim_def Let_def log_def emit_def i_def [symmetric] spentFromChannel_def)
qed

lemma settles_trans: "settles a b \<Longrightarrow> settles b c \<Longrightarrow> settles a c"
  by (auto simp: settles_def)

lemma createClaim_step:
  "createClaim e None w = (res, w') \<Longrightarrow> res = Returns None"
  "createClaim e (Some c) w = (res, w') \<Longrightarrow> \<exists>c'. res = Returns (Some c') \<and> settles c c'"
proof -
  assume "createClaim e None w = (res, w')"
  then show "res = Returns None"
    using createClaim_noop(1) [of w None e] by simp
next
  assume run: "createClaim e (Some c) w = (res, w')"
  show "\<exists>c'. res = Returns (Some c') \<and> settles c c'"
  proof (cases "0 < gwei_to_wei (payoutAmount (account w)) \<and> 0 < remainingInChannel c")
    case True
    let ?i = "min (remainingInChannel c) (gwei_to_wei (payoutAmount (account w)))"
    from True createClaim_claim(1) [of w c e] createClaim_claim(4) [of w c] run
    have "res = Returns (Some (signClaim e (spent c + ?i) c))" and "0 < ?i"
      by simp_all
    moreover have "spent c + ?i \<le> value_c c"
      by (simp add: remainingInChannel_def min_def)
    ultimately show ?thesis
      by (simp add: settles_def signClaim_fields)
  next
    case False
    then have "res = Returns (Some c)"
      using createClaim_noop(1) [of w "Some c" e] run by auto
    then show ?thesis by (simp add: settles_def)
  qed
qed

lemma createClaim_outgoing:
  "outgoing (account (snd (createClaim e cachedChannel w))) = outgoing (account w)"
  "depositQueue (snd (createClaim e cachedChannel w)) = depositQueue w"
  by (simp_all add: createClaim_def Let_def log_def emit_def split: option.splits)

subsection \<open>Balances after a claim\<close>

text \<open>
  C2. When \<open>createClaim\<close> produces a new claim for a channel \<open>c\<close>, the increment
  \<open>i = min(remaining, budget)\<close> in wei is positive, where the budget is the payout amount
  in whole wei; the new \<open>spent\<close> is the old one plus \<open>i\<close>, \<open>payableBalance\<close> goes down by
  \<open>i\<close> in gwei rounded down, and \<open>payoutAmount\<close> becomes \<open>min(0, payoutAmount - i_gwei)\<close>.
\<close>

theorem createClaim_balances:
  assumes run: "createClaim e (Some c) w = (Returns (Some c'), w')" and new: "c' \<noteq> c"
  defines "i \<equiv> min (remainingInChannel c) (gwei_to_wei (payoutAmount (account w)))"
  shows "0 < i \<and> spent c' = spent c + i
       \<and> payableBalance (account w') = payableBalance (account w) - of_int \<lfloor>i / 1000000000\<rfloor>
       \<and> payoutAmount (account w') = min 0 (payoutAmount (account w) - of_int \<lfloor>i / 1000000000\<rfloor>)"
proof (cases "0 < gwei_to_wei (payoutAmount (account w)) \<and> 0 < remainingInChannel c")
  case True
  from True createClaim_claim(1) [of w c e] createClaim_claim(2) [of w c e]
    createClaim_claim(4) [of w c] run
  show ?thesis
    by (simp add: i_def signClaim_fields)
next
  case False
  then have "fst (createClaim e (Some c) w) = Returns (Some c)"
    using createClaim_noop(1) [of w "Some c" e] by auto
  with run new show ?thesis by simp
qed

theorem createClaim_balances_witness:
  "fst (createClaim example_chain (Some example_outgoing) example_fraction)
     = Returns (Some (example_outgoing\<lparr>spent := 3500000000, signature := Some ''0x5e1c''\<rparr>))
   \<and> example_outgoing\<lparr>spent := 3500000000, signature := Some ''0x5e1c''\<rparr> \<noteq> example_outgoing
   \<and> payoutAmount (account example_fraction) = 25000000001 / 10000000000
   \<and> gwei_to_wei (payoutAmount (account example_fraction)) = 2500000000
   \<and> min (remainingInChannel example_outgoing) (gwei_to_wei (payoutAmount (account example_fraction)))
       = 2500000000
   \<and> payableBalance (account example_fraction) = 3
   \<and> payableBalance (account (snd (createClaim example_chain (Some example_outgoing) example_fraction))) = 1
   \<and> payoutAmount (account (snd (createClaim example_chain (Some example_outgoing) example_fraction))) = 0"
proof -
  let ?run = "createClaim example_chain (Some example_outgoing) example_fraction"
  let ?c = "example_outgoing\<lparr>spent := 3500000000, signature := Some ''0x5e1c''\<rparr>"
  have claim: "fst ?run = Returns (Some ?c)"
    by code_simp
  then have run: "?run = (Returns (Some ?c), snd ?run)"
    by (simp add: prod_eq_iff)
  have new: "?c \<noteq> example_outgoing"
    by (simp add: example_defs example_outgoing_def)
  have before: "payableBalance (account example_fraction) = 3"
    by (simp add: example_defs example_fraction_def)
  have payout: "payoutAmount (account example_fraction) = 25000000001 / 10000000000"
    by (simp add: example_defs example_fraction_def)
  have budget: "gwei_to_wei (payoutAmount (account example_fraction)) = 2500000000"
    by code_simp
  have i: "min (remainingInChannel example_outgoing) (gwei_to_wei (payoutAmount (account example_fraction)))
       = 2500000000"
    by code_simp
  have i': "min (remainingInChannel example_outgoing) (gwei_to_wei (25000000001 / 10000000000))
       = 2500000000"
    using i by (simp add: payout)
  have floor: "\<lfloor>(2500000000 :: rat) / 1000000000\<rfloor> = 2"
    by (simp add: floor_eq_iff)
  from createClaim_balances [OF run new]
  have "payableBalance (account (snd ?run)) = 1" and "payoutAmount (account (snd ?run)) = 0"
    unfolding before payout i' floor by simp_all
  with claim new payout budget i before show ?thesis
    by (intro conjI)
qed

subsection \<open>Spent never decreases\<close>

lemma sendMoney_step:
  fixes e amount w
  defines "w' \<equiv> snd (sendMoney e amount w)"
  assumes "depositQueue w = None"
  shows "depositQueue w' = None"
    and "outgoing (account w) = None \<Longrightarrow> outgoing (account w') = None"
    and "outgoing (account w) = Some c \<Longrightarrow> \<exists>c'. outgoing (account w') = Some c' \<and> settles c c'"
proof -
  define amountToSend where
    "amountToSend = (case amount of Some a \<Rightarrow> a | None \<Rightarrow> max 0 (payableBalance (account w)))"
  define w1 where "w1 = w\<lparr>account := (account w)\<lparr>payoutAmount := payoutAmount (account w) + amountToSend\<rparr>\<rparr>"
  obtain res w2 where run: "createClaim e (outgoing (account w)) w1 = (res, w2)"
    by (cases "createClaim e (outgoing (account w)) w1")
  have w': "w' = w2\<lparr>account := (account w2)\<lparr>outgoing := commit (outgoing (account w2)) res\<rparr>\<rparr>"
    using assms(2) run
    by (simp add: w'_def sendMoney_def Let_def amountToSend_def [symmetric] w1_def [symmetric]
          w1_def [THEN arg_cong, of depositQueue] outgoing_add_def w1_def [THEN arg_cong, of "\<lambda>w. outgoing (account w)"])
  have out2: "outgoing (account w2) = outgoing (account w)" and dq2: "depositQueue w2 = None"
    using createClaim_outgoing [of e "outgoing (account w)" w1] run assms(2)
    by (simp_all add: w1_def)
  show "depositQueue w' = None" by (simp add: w' dq2)
  show "outgoing (account w') = None" if "outgoing (account w) = None"
    using createClaim_step(1) [of e w1 res w2] run that by (simp add: w' commit_def)
  show "\<exists>c'. outgoing (account w') = Some c' \<and> settles c c'" if "outgoing (account w) = Some c"
    using createClaim_step(2) [of e c w1 res w2] run that by (auto simp: w' commit_def)
qed

lemma sendMoneys_later:
  "depositQueue w = None \<Longrightarrow> outgoing (account w) = Some c \<Longrightarrow>
   c' \<in> set (List.map_filter (\<lambda>w'. outgoing (account w')) (sendMoneys e amounts w)) \<Longrightarrow>
   settles c c'"
proof (induction amounts arbitrary: w c)
  case Nil
  then show ?case by (simp add: map_filter_simps)
next
  case (Cons amount amounts)
  define w1 where "w1 = snd (sendMoney e amount w)"
  from sendMoney_step(1) [OF Cons.prems(1), of e amount]
    sendMoney_step(3) [OF Cons.prems(1) Cons.prems(2), of e amount]
  obtain c1 where c1: "depositQueue w1 = None" "outgoing (account w1) = Some c1" "settles c c1"
    by (auto simp: w1_def)
  from Cons.prems(3) have "c' = c1 \<or> c' \<in> set (List.map_filter (\<lambda>w'. outgoing (account w')) (sendMoneys e amounts w1))"
    by (simp add: w1_def [symmetric] Let_def map_filter_simps c1)
  then show ?case
    using c1 Cons.IH [OF c1(1,2)] settles_trans by blast
qed

lemma sendMoneys_sorted:
  "depositQueue w = None \<Longrightarrow>
   sorted_wrt settles (List.map_filter (\<lambda>w'. outgoing (account w')) (sendMoneys e amounts w))"
proof (induction amounts arbitrary: w)
  case Nil
  then show ?case by (simp add: map_filter_simps)
next
  case (Cons amount amounts)
  define w1 where "w1 = snd (sendMoney e amount w)"
  have dq: "depositQueue w1 = None"
    using sendMoney_step(1) [OF Cons.prems, of e amount] by (simp add: w1_def)
  show ?case
  proof (cases "outgoing (account w1)")
    case None
    then show ?thesis
      using Cons.IH [OF dq] by (simp add: w1_def [symmetric] Let_def map_filter_simps)
  next
    case (Some c1)
    then show ?thesis
      using Cons.IH [OF dq] sendMoneys_later [OF dq Some, of _ e amounts]
      by (simp add: w1_def [symmetric] Let_def map_filter_simps)
  qed
qed

lemma outgoingClaims_sorted:
  assumes "depositQueue w = None"
  shows "sorted_wrt settles (outgoingClaims e amounts w)"
    and "list_all (\<lambda>c. spent c \<le> value_c c \<or> outgoing (account w) = Some c) (outgoingClaims e amounts w)"
proof -
  show sorted: "sorted_wrt settles (outgoingClaims e amounts w)"
  proof (cases "outgoing (account w)")
    case None
    then show ?thesis
      using sendMoneys_sorted [OF assms, of e amounts] by (simp add: outgoingClaims_def map_filter_simps)
  next
    case (Some c)
    then show ?thesis
      using sendMoneys_sorted [OF assms, of e amounts] sendMoneys_later [OF assms Some, of _ e amounts]
      by (simp add: outgoingClaims_def map_filter_simps)
  qed
  show "list_all (\<lambda>c. spent c \<le> value_c c \<or> outgoing (account w) = Some c) (outgoingClaims e amounts w)"
  proof (cases "outgoing (account w)")
    case None
    have "outgoing (account w') = None" if "w' \<in> set (sendMoneys e amounts w)" for w'
      using that assms None
    proof (induction amounts arbitrary: w)
      case Nil then show ?case by simp
    next
      case (Cons amount amounts)
      from sendMoney_step(1) [OF Cons.prems(2), of e amount]
        sendMoney_step(2) [OF Cons.prems(2) Cons.prems(3), of e amount]
      have "depositQueue (snd (sendMoney e amount w)) = None" "outgoing (account (snd (sendMoney e amount w))) = None"
        by simp_all
      with Cons.IH [of "snd (sendMoney e amount w)"] Cons.prems(1) show ?case
        by (auto simp: Let_def)
    qed
    then have "outgoingClaims e amounts w = []"
      using None by (auto simp: outgoingClaims_def map_filter_def filter_empty_conv)
    then show ?thesis by simp
  next
    case (Some c)
    have "settles c c'" if "c' \<in> set (outgoingClaims e amounts w)" for c'
      using that Some sendMoneys_later [OF assms Some, of c' e amounts]
      by (auto simp: outgoingClaims_def map_filter_simps settles_def)
    then show ?thesis
      using Some by (auto simp: list_all_iff settles_def)
  qed
qed

text \<open>
  C6. \<open>createClaim\<close> returns the cached channel, and leaves the account as it is, when
  the payout amount converted to whole wei (the budget) is not positive, when there is no
  channel, or when nothing remains in the channel. Otherwise it returns the channel with
  \<open>spent + min(budget, remaining)\<close>, which is more than before and at most the channel's
  value. Hence over any sequence of \<open>sendMoney\<close> calls on the outgoing queue the committed
  \<open>spent\<close> never decreases, and every claim committed after the first state is within the
  value of its channel.
\<close>

theorem createClaim_spent:
  assumes run: "createClaim e cachedChannel w = (res, w')"
  shows "(gwei_to_wei (payoutAmount (account w)) \<le> 0 \<or> cachedChannel = None
            \<or> \<not> 0 < remainingInChannel (the cachedChannel) \<longrightarrow>
          res = Returns cachedChannel \<and> account w' = account w)
       \<and> (\<forall>c. 0 < gwei_to_wei (payoutAmount (account w)) \<and> cachedChannel = Some c
               \<and> 0 < remainingInChannel c \<longrightarrow>
            (\<exists>c'. res = Returns (Some c')
               \<and> spent c' = spent c
                    + min (gwei_to_wei (payoutAmount (account w))) (remainingInChannel c)
               \<and> value_c c' = value_c c \<and> spent c < spent c' \<and> spent c' \<le> value_c c'))
       \<and> (depositQueue w0 = None \<longrightarrow>
            sorted (map spent (outgoingClaims e amounts w0))
            \<and> list_all (\<lambda>c. spent c \<le> value_c c \<or> outgoing (account w0) = Some c)
                 (outgoingClaims e amounts w0))"
proof (intro conjI impI allI)
  assume "gwei_to_wei (payoutAmount (account w)) \<le> 0 \<or> cachedChannel = None
            \<or> \<not> 0 < remainingInChannel (the cachedChannel)"
  from createClaim_noop(1) [OF this, of e] createClaim_noop(2) [OF this, of e] run
  show "res = Returns cachedChannel" and "account w' = account w"
    by simp_all
next
  fix c
  assume c: "0 < gwei_to_wei (payoutAmount (account w)) \<and> cachedChannel = Some c
               \<and> 0 < remainingInChannel c"
  let ?i = "min (remainingInChannel c) (gwei_to_wei (payoutAmount (account w)))"
  from c createClaim_claim(1) [of w c e] createClaim_claim(4) [of w c] run
  have "res = Returns (Some (signClaim e (spent c + ?i) c))" and "0 < ?i"
    by simp_all
  moreover have "spent c + ?i \<le> value_c c"
    by (simp add: remainingInChannel_def min_def)
  ultimately show "\<exists>c'. res = Returns (Some c')
               \<and> spent c' = spent c
                    + min (gwei_to_wei (payoutAmount (account w))) (remainingInChannel c)
               \<and> value_c c' = value_c c \<and> spent c < spent c' \<and> spent c' \<le> value_c c'"
    by (simp add: signClaim_fields min.commute)
next
  assume dq: "depositQueue w0 = None"
  from outgoingClaims_sorted(1) [OF dq, of e amounts]
  have "sorted_wrt (\<lambda>a b. spent a \<le> spent b) (outgoingClaims e amounts w0)"
    by (rule sorted_wrt_mono_rel [rotated]) (auto simp: settles_def)
  then show "sorted (map spent (outgoingClaims e amounts w0))"
    by (simp add: sorted_map)
  show "list_all (\<lambda>c. spent c \<le> value_c c \<or> outgoing (account w0) = Some c)
                 (outgoingClaims e amounts w0)"
    by (rule outgoingClaims_sorted(2) [OF dq])
qed

theorem createClaim_spent_witness:
  "fst (createClaim example_chain (Some example_outgoing) example_paying)
     = Returns (Some (example_outgoing\<lparr>spent := 3500000000, signature := Some ''0x5e1c''\<rparr>))
   \<and> fst (createClaim example_chain (Some example_outgoing) example_world)
     = Returns (Some example_outgoing)
   \<and> payoutAmount (account example_dust) = 1 / 2000000000
   \<and> gwei_to_wei (payoutAmount (account example_dust)) = 0
   \<and> fst (createClaim example_chain (Some example_outgoing) example_dust)
     = Returns (Some example_outgoing)
   \<and> account (snd (createClaim example_chain (Some example_outgoing) example_dust))
     = account example_dust
   \<and> map spent (outgoingClaims example_chain [Some 1, None, Some 3] example_paying)
     = [1000000000, 4500000000, 4500000000, 5000000000]
   \<and> sorted (map spent (outgoingClaims example_chain [Some 1, None, Some 3] example_paying))"
proof -
  let ?run = "createClaim example_chain (Some example_outgoing) example_paying"
  let ?dust = "createClaim example_chain (Some example_outgoing) example_dust"
  have run: "?run = (fst ?run, snd ?run)" and dust: "?dust = (fst ?dust, snd ?dust)"
    by simp_all
  have claim: "fst ?run = Returns (Some (example_outgoing\<lparr>spent := 3500000000, signature := Some ''0x5e1c''\<rparr>))"
    by code_simp
  have noop: "fst (createClaim example_chain (Some example_outgoing) example_world)
     = Returns (Some example_outgoing)"
    by code_simp
  have owed: "payoutAmount (account example_dust) = 1 / 2000000000"
    by (simp add: example_defs example_dust_def)
  have budget: "gwei_to_wei (payoutAmount (account example_dust)) = 0"
    by code_simp
  have dq: "depositQueue example_paying = None"
    by (simp add: example_defs example_paying_def)
  have spents: "map spent (outgoingClaims example_chain [Some 1, None, Some 3] example_paying)
     = [1000000000, 4500000000, 4500000000, 5000000000]"
    by code_simp
  from createClaim_spent [OF dust, of example_paying "[Some 1, None, Some 3]"] budget
  have kept: "fst ?dust = Returns (Some example_outgoing)"
    "account (snd ?dust) = account example_dust"
    by simp_all
  from createClaim_spent [OF run, of example_paying "[Some 1, None, Some 3]"] dq
  have "sorted (map spent (outgoingClaims example_chain [Some 1, None, Some 3] example_paying))"
    by simp
  with claim noop owed budget kept spents show ?thesis
    by (intro conjI)
qed

subsection \<open>Deposits\<close>

lemma refreshChannel_frame:
  "depositQueue (snd (refreshChannel e first channel predicate attempts w)) = depositQueue w
   \<and> account (snd (refreshChannel e first channel predicate attempts w)) = account w"
proof (induction e first channel predicate attempts w rule: refreshChannel.induct)
  case (1 e first channel predicate attempts w)
  show ?case
  proof (cases "attempts > 20")
    case True
    then show ?thesis by (subst refreshChannel.simps, subst refreshChannel.simps) simp
  next
    case False
    show ?thesis
    proof (cases "updateChannel e (first + attempts) channel")
      case Throws
      with False show ?thesis by (subst refreshChannel.simps, subst refreshChannel.simps) simp
    next
      case (Returns u)
      show ?thesis
      proof (cases "predicate u")
        case True
        with False Returns show ?thesis
          by (subst refreshChannel.simps, subst refreshChannel.simps) simp
      next
        case no: False
        from "1.IH" [OF False Returns no] False Returns no show ?thesis
          by (subst refreshChannel.simps, subst refreshChannel.simps) (simp add: emit_def)
      qed
    qed
  qed
qed

lemma refreshChannel_result:
  "fst (refreshChannel e first channel predicate attempts w) = Returns u \<Longrightarrow> predicate u"
proof (induction e first channel predicate attempts w rule: refreshChannel.induct)
  case (1 e first channel predicate attempts w)
  from "1.prems" have run: "fst (if attempts > 20 then (Throws, w)
      else case updateChannel e (first + attempts) channel of
        Throws \<Rightarrow> (Throws, w)
      | Returns updatedChannel \<Rightarrow>
          if predicate updatedChannel then (Returns updatedChannel, w)
          else refreshChannel e first channel predicate (attempts + 1) (emit (Delay 1000) w)) = Returns u"
    by (subst (asm) refreshChannel.simps)
  show ?case
  proof (cases "attempts > 20")
    case True
    with run show ?thesis by simp
  next
    case False
    show ?thesis
    proof (cases "updateChannel e (first + attempts) channel")
      case Throws
      with False run show ?thesis by simp
    next
      case (Returns x)
      show ?thesis
      proof (cases "predicate x")
        case True
        with False Returns run show ?thesis by simp
      next
        case no: False
        from "1.IH" [OF False Returns no] False Returns no run show ?thesis
          by simp
      qed
    qed
  qed
qed

lemma refreshChannel_world:
  "fst (refreshChannel e first channel predicate attempts w)
     = fst (refreshChannel e first channel predicate attempts w')"
proof (induction e first channel predicate attempts w arbitrary: w' rule: refreshChannel.induct)
  case (1 e first channel predicate attempts w)
  show ?case
  proof (cases "attempts > 20")
    case True
    then show ?thesis by (subst refreshChannel.simps, subst (2) refreshChannel.simps) simp
  next
    case False
    show ?thesis
    proof (cases "updateChannel e (first + attempts) channel")
      case Throws
      with False show ?thesis by (subst refreshChannel.simps, subst (2) refreshChannel.simps) simp
    next
      case (Returns u)
      show ?thesis
      proof (cases "predicate u")
        case True
        with False Returns show ?thesis
          by (subst refreshChannel.simps, subst (2) refreshChannel.simps) simp
      next
        case no: False
        from "1.IH" [OF False Returns no, of "emit (Delay 1000) w'"] False Returns no show ?thesis
          by (subst refreshChannel.simps, subst (2) refreshChannel.simps) simp
      qed
    qed
  qed
qed

lemma refreshChannel_trace:
  "\<exists>evs. trace (snd (refreshChannel e first channel predicate attempts w)) = trace w @ evs
         \<and> list_all quiet evs"
proof (induction e first channel predicate attempts w rule: refreshChannel.induct)
  case (1 e first channel predicate attempts w)
  show ?case
  proof (cases "attempts > 20")
    case True
    then show ?thesis by (subst refreshChannel.simps) simp
  next
    case False
    show ?thesis
    proof (cases "updateChannel e (first + attempts) channel")
      case Throws
      with False show ?thesis by (subst refreshChannel.simps) simp
    next
      case (Returns u)
      show ?thesis
      proof (cases "predicate u")
        case True
        with False Returns show ?thesis
          by (subst refreshChannel.simps) simp
      next
        case no: False
        from "1.IH" [OF False Returns no] False Returns no show ?thesis
          by (subst refreshChannel.simps) (auto simp: emit_def)
      qed
    qed
  qed
qed

lemma sendMoney_side:
  fixes e amount w
  defines "w' \<equiv> snd (sendMoney e amount w)"
  assumes "depositQueue w = Some (Some c)"
  shows "\<exists>c'. depositQueue w' = Some (Some c') \<and> settles c c'"
proof -
  define amountToSend where
    "amountToSend = (case amount of Some a \<Rightarrow> a | None \<Rightarrow> max 0 (payableBalance (account w)))"
  define w1 where "w1 = w\<lparr>account := (account w)\<lparr>payoutAmount := payoutAmount (account w) + amountToSend\<rparr>\<rparr>"
  obtain res w2 where run: "createClaim e (Some c) w1 = (res, w2)"
    by (cases "createClaim e (Some c) w1")
  have dq1: "depositQueue w1 = Some (Some c)"
    using assms(2) by (simp add: w1_def)
  have "w' = w2\<lparr>depositQueue := Some (commit (Some c) res)\<rparr>"
    using run [unfolded w1_def] assms(2)
    by (simp add: w'_def sendMoney_def Let_def amountToSend_def [symmetric] depositQueue_add_def)
  with createClaim_step(2) [OF run] show ?thesis
    by (auto simp: commit_def)
qed

lemma sendMoneys_side:
  "depositQueue w = Some (Some c) \<Longrightarrow>
   \<exists>c'. depositQueue (last (w # sendMoneys e pending w)) = Some (Some c') \<and> settles c c'"
proof (induction pending arbitrary: w c)
  case Nil
  then show ?case by (simp add: settles_def)
next
  case (Cons amount pending)
  define w1 where "w1 = snd (sendMoney e amount w)"
  from sendMoney_side [OF Cons.prems, of e amount]
  obtain c1 where c1: "depositQueue w1 = Some (Some c1)" "settles c c1"
    by (auto simp: w1_def)
  from Cons.IH [OF c1(1)] obtain c' where
    "depositQueue (last (w1 # sendMoneys e pending w1)) = Some (Some c')" "settles c1 c'"
    by auto
  with c1 settles_trans show ?case
    by (auto simp: w1_def [symmetric] Let_def)
qed

lemma sideQueue_state:
  "\<exists>f. depositQueue (sideQueue e channel pending w) = Some (Some f) \<and> settles channel f"
proof -
  define w0 where "w0 = w\<lparr>depositQueue := Some (Some channel)\<rparr>"
  obtain res w1 where run: "createClaim e (Some channel) w0 = (res, w1)"
    by (cases "createClaim e (Some channel) w0")
  define w2 where "w2 = w1\<lparr>depositQueue := Some (commit (Some channel) res)\<rparr>"
  from createClaim_step(2) [OF run] obtain c1 where
    c1: "depositQueue w2 = Some (Some c1)" "settles channel c1"
    by (auto simp: w2_def commit_def)
  have "sideQueue e channel pending w = last (w2 # sendMoneys e pending w2)"
    using run by (simp add: sideQueue_def w0_def [symmetric] depositQueue_add_def w2_def Let_def)
  with sendMoneys_side [OF c1(1), of e pending] c1(2) settles_trans show ?thesis
    by auto
qed

lemma depositFailed_result:
  "depositQueue w = Some s \<Longrightarrow> fst (depositFailed w) = Returns s"
  "depositQueue (snd (depositFailed w)) = None"
  by (auto simp: depositFailed_def clearDepositQueue_def log_def emit_def split: option.splits)

text \<open>
  The paths of \<open>depositToChannel\<close> inside the promise chain, which the gas price being
  read leads to. The side-queue ends holding a claim \<open>f\<close> of the channel with at least the
  \<open>spent\<close> the deposit started from. When the transaction goes through and the contract
  shows the new value in the snapshot \<open>u\<close>, the state returned is \<open>u\<close> with the signature
  and \<open>spent\<close> of \<open>f\<close>, and the value of \<open>u\<close> is the old value plus the deposit. When
  preparing, authorizing or sending the transaction fails, or the contract never shows
  the new value, the \<open>catch\<close> returns \<open>f\<close>. (The result of \<open>refreshChannel\<close> does not depend
  on the world it starts from.)
\<close>

lemma depositToChannel_caught:
  assumes gas: "getGasPrice e = Returns g"
  shows "\<exists>f. depositQueue (sideQueue e channel pending w) = Some (Some f)
       \<and> spent channel \<le> spent f
       \<and> (prepareTransaction e ''deposit'' = Returns fee \<and> authorize fee = Returns ()
            \<and> queueTransaction e ''deposit'' = Returns ()
            \<and> fst (refreshChannel e 0 channel (isDepositSuccessful (value_c channel + v)) 0 w)
                = Returns (Some u) \<longrightarrow>
          fst (depositToChannel e pending channel v authorize w)
            = Returns (Some (u\<lparr>signature := signature f, spent := spent f\<rparr>))
          \<and> value_c u = value_c channel + v)
       \<and> (prepareTransaction e ''deposit'' = Throws
            \<or> (prepareTransaction e ''deposit'' = Returns fee \<and> authorize fee = Throws)
            \<or> (prepareTransaction e ''deposit'' = Returns fee \<and> authorize fee = Returns ()
                \<and> queueTransaction e ''deposit'' = Throws)
            \<or> (prepareTransaction e ''deposit'' = Returns fee \<and> authorize fee = Returns ()
                \<and> queueTransaction e ''deposit'' = Returns ()
                \<and> fst (refreshChannel e 0 channel (isDepositSuccessful (value_c channel + v)) 0 w)
                    = Throws) \<longrightarrow>
          fst (depositToChannel e pending channel v authorize w) = Returns (Some f))"
proof -
  let ?side = "sideQueue e channel pending w"
  let ?total = "value_c channel + v"
  let ?w1 = "emit (QueueTransaction ''deposit'') (log Debug ''Depositing to channel'' ?side)"
  from sideQueue_state [of e channel pending w]
  obtain f where f: "depositQueue ?side = Some (Some f)" and adv: "settles channel f"
    by blast
  obtain r w2 where refresh: "refreshChannel e 0 channel (isDepositSuccessful ?total) 0 ?w1 = (r, w2)"
    by (cases "refreshChannel e 0 channel (isDepositSuccessful ?total) 0 ?w1")
  have r: "r = fst (refreshChannel e 0 channel (isDepositSuccessful ?total) 0 w)"
    using refresh refreshChannel_world [of e 0 channel "isDepositSuccessful ?total" 0 ?w1 w]
    by simp
  have dq1: "depositQueue ?w1 = Some (Some f)"
    using f by (simp add: log_def emit_def)
  have dq2: "depositQueue w2 = Some (Some f)"
    using refreshChannel_frame [of e 0 channel "isDepositSuccessful ?total" 0 ?w1] refresh dq1
    by simp
  have success: "fst (depositToChannel e pending channel v authorize w)
            = Returns (Some (u\<lparr>signature := signature f, spent := spent f\<rparr>))
          \<and> value_c u = ?total"
    if "prepareTransaction e ''deposit'' = Returns fee" "authorize fee = Returns ()"
      "queueTransaction e ''deposit'' = Returns ()"
      "fst (refreshChannel e 0 channel (isDepositSuccessful ?total) 0 w) = Returns (Some u)"
  proof -
    from that(4) r have ru: "r = Returns (Some u)" by simp
    from refreshChannel_result [OF that(4)] have "value_c u = ?total"
      by (simp add: isDepositSuccessful_def)
    moreover have "fst (depositToChannel e pending channel v authorize w)
            = Returns (Some (u\<lparr>signature := signature f, spent := spent f\<rparr>))"
      using gas that(1,2,3) refresh ru dq2
      by (simp add: depositToChannel_def Let_def clearDepositQueue_def log_def emit_def)
    ultimately show ?thesis by simp
  qed
  have failure: "fst (depositToChannel e pending channel v authorize w) = Returns (Some f)"
    if "prepareTransaction e ''deposit'' = Throws
            \<or> (prepareTransaction e ''deposit'' = Returns fee \<and> authorize fee = Throws)
            \<or> (prepareTransaction e ''deposit'' = Returns fee \<and> authorize fee = Returns ()
                \<and> queueTransaction e ''deposit'' = Throws)
            \<or> (prepareTransaction e ''deposit'' = Returns fee \<and> authorize fee = Returns ()
                \<and> queueTransaction e ''deposit'' = Returns ()
                \<and> fst (refreshChannel e 0 channel (isDepositSuccessful ?total) 0 w) = Throws)"
    using that
  proof (elim disjE conjE)
    assume "prepareTransaction e ''deposit'' = Throws"
    then show ?thesis
      using gas depositFailed_result(1) [OF f] by (simp add: depositToChannel_def Let_def)
  next
    assume "prepareTransaction e ''deposit'' = Returns fee" "authorize fee = Throws"
    then show ?thesis
      using gas depositFailed_result(1) [OF f] by (simp add: depositToChannel_def Let_def)
  next
    assume "prepareTransaction e ''deposit'' = Returns fee" "authorize fee = Returns ()"
      "queueTransaction e ''deposit'' = Throws"
    then show ?thesis
      using gas depositFailed_result(1) [OF dq1] by (simp add: depositToChannel_def Let_def)
  next
    assume "prepareTransaction e ''deposit'' = Returns fee" "authorize fee = Returns ()"
      "queueTransaction e ''deposit'' = Returns ()"
      "fst (refreshChannel e 0 channel (isDepositSuccessful ?total) 0 w) = Throws"
    then show ?thesis
      using gas depositFailed_result(1) [OF dq2] refresh r
      by (simp add: depositToChannel_def Let_def)
  qed
  from adv have "spent channel \<le> spent f"
    by (auto simp: settles_def)
  with f success failure show ?thesis
    by (intro exI [of _ f]) simp
qed

lemma depositToChannel_caught_example:
  "getGasPrice example_chain = Returns 1
   \<and> depositQueue (sideQueue example_chain example_outgoing [Some 1] example_paying)
       = Some (Some (example_outgoing\<lparr>spent := 4500000000, signature := Some ''0x5e1c''\<rparr>))
   \<and> fst (depositToChannel example_chain [Some 1] example_outgoing 4000000000
             (\<lambda>fee. Returns ()) example_paying)
       = Returns (Some (example_outgoing\<lparr>value_c := 9000000000, spent := 4500000000,
                          signature := Some ''0x5e1c''\<rparr>))
   \<and> fst (depositToChannel example_chain [Some 1] example_outgoing 4000000000
             (\<lambda>fee. Throws) example_paying)
       = Returns (Some (example_outgoing\<lparr>spent := 4500000000, signature := Some ''0x5e1c''\<rparr>))"
proof -
  let ?f = "example_outgoing\<lparr>spent := 4500000000, signature := Some ''0x5e1c''\<rparr>"
  let ?u = "example_outgoing\<lparr>value_c := 9000000000\<rparr>"
  have gas: "getGasPrice example_chain = Returns 1"
    by (simp add: example_chain_def)
  have side: "depositQueue (sideQueue example_chain example_outgoing [Some 1] example_paying)
       = Some (Some ?f)"
    by code_simp
  have prepare: "prepareTransaction example_chain ''deposit'' = Returns 50000000"
    and queue: "queueTransaction example_chain ''deposit'' = Returns ()"
    by (simp_all add: example_chain_def)
  have refresh: "fst (refreshChannel example_chain 0 example_outgoing
                        (isDepositSuccessful (value_c example_outgoing + 4000000000)) 0 example_paying)
       = Returns (Some ?u)"
    by code_simp
  from depositToChannel_caught [OF gas, where channel = example_outgoing and pending = "[Some 1]"
      and w = example_paying and fee = 50000000 and authorize = "\<lambda>fee. Returns ()"
      and v = 4000000000 and u = ?u]
  have accepted: "fst (depositToChannel example_chain [Some 1] example_outgoing 4000000000
             (\<lambda>fee. Returns ()) example_paying)
       = Returns (Some (?u\<lparr>signature := signature ?f, spent := spent ?f\<rparr>))"
    using side prepare queue refresh by auto
  from depositToChannel_caught [OF gas, where channel = example_outgoing and pending = "[Some 1]"
      and w = example_paying and fee = 50000000 and authorize = "\<lambda>fee. Throws"
      and v = 4000000000 and u = ?u]
  have refused: "fst (depositToChannel example_chain [Some 1] example_outgoing 4000000000
             (\<lambda>fee. Throws) example_paying) = Returns (Some ?f)"
    using side prepare by auto
  have "?u\<lparr>signature := signature ?f, spent := spent ?f\<rparr>
      = example_outgoing\<lparr>value_c := 9000000000, spent := 4500000000, signature := Some ''0x5e1c''\<rparr>"
    by (simp add: example_defs example_chain_def example_outgoing_def example_paying_def)
  with gas side accepted refused show ?thesis
    by simp
qed


text \<open>
  When the gas price cannot be read, the call rejects before the promise chain that has
  the \<open>catch\<close>: the side-queue stays in place, holding the claims it signed.
\<close>

lemma depositToChannel_rejects:
  assumes "getGasPrice e = Throws"
  shows "depositToChannel e pending channel v authorize w = (Throws, sideQueue e channel pending w)"
    and "depositQueue (sideQueue e channel pending w) \<noteq> None"
  using assms sideQueue_state [of e channel pending w]
  by (auto simp: depositToChannel_def Let_def)

text \<open>
  C7. When a deposit fails, the state committed to the outgoing queue is to be the final
  state of the side-queue, so that no claim signed while the deposit was pending is lost.
  A deposit of 4 gwei to the outgoing channel, which holds a claim for 1 gwei, by an
  account owing 2.5 gwei, with one \<open>sendMoney\<close> of 1 gwei arriving meanwhile, when the gas
  price cannot be read: the side-queue signs a claim for 4.5 gwei, sends it to the peer
  and takes 3 gwei off the payable balance; \<open>depositToChannel\<close> rejects, so the outgoing
  queue keeps the claim for 1 gwei, and the side-queue is left in place.
\<close>

theorem depositToChannel_lost_claim:
  "getGasPrice example_offline = Throws
   \<and> outgoing (account example_paying) = Some example_outgoing
   \<and> spent example_outgoing = 1000000000
   \<and> fst (depositToChannel example_offline [Some 1] example_outgoing 4000000000
             (\<lambda>fee. Returns ()) example_paying) = Throws
   \<and> commit (Some example_outgoing)
         (fst (depositToChannel example_offline [Some 1] example_outgoing 4000000000
                 (\<lambda>fee. Returns ()) example_paying)) = Some example_outgoing
   \<and> depositQueue (snd (depositToChannel example_offline [Some 1] example_outgoing 4000000000
                          (\<lambda>fee. Returns ()) example_paying))
       = Some (Some (example_outgoing\<lparr>spent := 4500000000, signature := Some ''0x5e1c''\<rparr>))
   \<and> trace (snd (depositToChannel example_offline [Some 1] example_outgoing 4000000000
                     (\<lambda>fee. Returns ()) example_paying))
       = [AutoFundOutgoingChannel,
          Log Info ''Settlement attempt triggered'', Log Debug ''Sending claim'',
          SendClaim (example_outgoing\<lparr>spent := 3500000000, signature := Some ''0x5e1c''\<rparr>),
          AutoFundOutgoingChannel,
          Log Info ''Settlement attempt triggered'', Log Debug ''Sending claim'',
          SendClaim (example_outgoing\<lparr>spent := 4500000000, signature := Some ''0x5e1c''\<rparr>)]
   \<and> payableBalance (account example_paying) = 3
   \<and> payableBalance (account (snd (depositToChannel example_offline [Some 1] example_outgoing
                                      4000000000 (\<lambda>fee. Returns ()) example_paying))) = 0"
  by code_simp

section \<open>Properties of claiming the incoming channel\<close>

lemma submitClaim_trace:
  "\<exists>evs. trace (snd (submitClaim e u w)) = trace w @ QueueTransaction ''claim'' # evs"
proof (cases "queueTransaction e ''claim''")
  case Throws
  then show ?thesis by (simp add: submitClaim_def log_def emit_def)
next
  case (Returns x)
  let ?w1 = "emit (QueueTransaction ''claim'') w"
  obtain r w2 where run: "refreshChannel e 1 u (\<lambda>channel. channel = None) 0 ?w1 = (r, w2)"
    by (cases "refreshChannel e 1 u (\<lambda>channel. channel = None) 0 ?w1")
  from refreshChannel_trace [of e 1 u "\<lambda>channel. channel = None" 0 ?w1] run
  obtain evs where "trace w2 = trace w @ QueueTransaction ''claim'' # evs"
    by (auto simp: emit_def)
  with Returns run show ?thesis
    by (cases r) (simp_all add: submitClaim_def log_def emit_def)
qed

lemma incoming_add_trace: "trace (snd (incoming_add reducer w)) = trace (snd (reducer (incoming (account w)) w))"
  by (simp add: incoming_add_def split: prod.splits)

text \<open>
  C8. \<open>claimIfProfitable\<close> on a cached channel that the contract still has, with the
  refreshed state \<open>u\<close>. If \<open>requireDisputed\<close> is set and \<open>u\<close> is not disputed, \<open>u\<close> is returned
  and committed and no transaction is handed to the transaction queue. Past that gate,
  once the fee is estimated and with no \<open>authorize\<close> callback, the claim transaction is
  handed to the queue exactly when the fee is strictly less than \<open>u.spent\<close>.
\<close>

theorem claimIfProfitable_policy:
  assumes cached: "incoming (account w) = Some c"
    and present: "updateChannel e 0 c = Returns (Some u)"
  shows "(requireDisputed \<and> \<not> isDisputed u \<longrightarrow>
            fst (claimIfProfitable e requireDisputed authorize w) = Returns (Some u)
            \<and> incoming (account (snd (claimIfProfitable e requireDisputed authorize w))) = Some u
            \<and> list_all (\<lambda>ev. \<forall>method. ev \<noteq> QueueTransaction method)
                 (emitted w (snd (claimIfProfitable e requireDisputed authorize w))))
       \<and> (\<not> (requireDisputed \<and> \<not> isDisputed u) \<and> getGasPrice e = Returns gasPrice
            \<and> prepareTransaction e ''claim'' = Returns txFee \<longrightarrow>
            (QueueTransaction ''claim''
               \<in> set (emitted w (snd (claimIfProfitable e requireDisputed None w)))
             \<longleftrightarrow> txFee < spent u))"
proof (intro conjI impI)
  assume noop: "requireDisputed \<and> \<not> isDisputed u"
  let ?w' = "log Debug ''Will not claim channel: channel is not disputed'' w"
  have run: "claimReducer e requireDisputed authorize (Some c) w = (Returns (Some u), ?w')"
    using present noop by (simp add: claimReducer_def)
  then have all: "claimIfProfitable e requireDisputed authorize w
      = (Returns (Some u), ?w'\<lparr>account := (account ?w')\<lparr>incoming := Some u\<rparr>\<rparr>)"
    using cached by (simp add: claimIfProfitable_def incoming_add_def commit_def)
  show "fst (claimIfProfitable e requireDisputed authorize w) = Returns (Some u)"
    and "incoming (account (snd (claimIfProfitable e requireDisputed authorize w))) = Some u"
    and "list_all (\<lambda>ev. \<forall>method. ev \<noteq> QueueTransaction method)
                 (emitted w (snd (claimIfProfitable e requireDisputed authorize w)))"
    by (simp_all add: all emitted_def log_def emit_def)
next
  assume go: "\<not> (requireDisputed \<and> \<not> isDisputed u) \<and> getGasPrice e = Returns gasPrice
            \<and> prepareTransaction e ''claim'' = Returns txFee"
  let ?w1 = "log Debug ''Attempting to claim channel'' w"
  let ?run = "claimIfProfitable e requireDisputed None w"
  have tr: "trace (snd ?run) = trace (snd (claimReducer e requireDisputed None (Some c) w))"
    using cached by (simp add: claimIfProfitable_def incoming_add_trace)
  show "QueueTransaction ''claim'' \<in> set (emitted w (snd ?run)) \<longleftrightarrow> txFee < spent u"
  proof (cases "txFee < spent u")
    case True
    then have "claimReducer e requireDisputed None (Some c) w = submitClaim e u ?w1"
      using present go by (auto simp: claimReducer_def Let_def)
    with submitClaim_trace [of e u ?w1] tr
    obtain evs where "trace (snd ?run)
        = trace w @ Log Debug ''Attempting to claim channel'' # QueueTransaction ''claim'' # evs"
      by (auto simp: log_def emit_def)
    from emitted_append [OF this] True show ?thesis by simp
  next
    case False
    then have "claimReducer e requireDisputed None (Some c) w
        = (Returns (Some u), log Debug ''Not profitable to claim channel'' ?w1)"
      using present go by (auto simp: claimReducer_def Let_def)
    with tr have "trace (snd ?run) = trace w @ [Log Debug ''Attempting to claim channel'',
        Log Debug ''Not profitable to claim channel'']"
      by (simp add: log_def emit_def)
    from emitted_append [OF this] False show ?thesis by simp
  qed
qed

theorem claimIfProfitable_policy_witness:
  "incoming (account example_claiming) = Some example_disputed
   \<and> updateChannel example_chain 0 example_disputed = Returns (Some example_disputed)
   \<and> isDisputed example_disputed
   \<and> prepareTransaction example_chain ''claim'' = Returns 50000000
   \<and> spent example_disputed = 100000000
   \<and> QueueTransaction ''claim''
        \<in> set (emitted example_claiming (snd (claimIfProfitable example_chain True None example_claiming)))"
proof -
  have cached: "incoming (account example_claiming) = Some example_disputed"
    by (simp add: example_claiming_def)
  have present: "updateChannel example_chain 0 example_disputed = Returns (Some example_disputed)"
    by (simp add: example_chain_def)
  have disputed: "isDisputed example_disputed"
    by (simp add: isDisputed_def example_disputed_def)
  have gas: "getGasPrice example_chain = Returns 1"
    and fee: "prepareTransaction example_chain ''claim'' = Returns 50000000"
    by (simp_all add: example_chain_def)
  have spent: "spent example_disputed = 100000000"
    by (simp add: example_disputed_def)
  from claimIfProfitable_policy [OF cached present, where requireDisputed = True
      and gasPrice = 1 and txFee = 50000000] disputed gas fee spent
  have "QueueTransaction ''claim''
        \<in> set (emitted example_claiming (snd (claimIfProfitable example_chain True None example_claiming)))"
    by simp
  with cached present disputed fee spent show ?thesis
    by (intro conjI)
qed

section \<open>Properties of handleData\<close>

lemma reaches_ilp:
  "reaches protocolData ''ilp'' ilp \<Longrightarrow> handleData m e protocolData w = handlePrepare m e ilp w"
  by (simp add: reaches_def handleData_def)

lemma reaches_machinomy:
  "reaches protocolData ''machinomy'' p \<Longrightarrow> handleData m e protocolData w = handleMachinomy m e p w"
  by (simp add: reaches_def handleData_def)

subsection \<open>Admission of a PREPARE\<close>

text \<open>
  C4. An ILP PREPARE that \<open>handleData\<close> processes, of the amount the codec reads. If the
  amount is above \<open>maxPacketAmount\<close> the reply is the reject of an \<open>AmountTooLargeError\<close>. If
  it is not, and \<open>receivableBalance + amount\<close> is above \<open>maxBalance\<close>, the reply is the reject
  of an \<open>InsufficientLiquidityError\<close>. In both cases \<open>receivableBalance\<close> is as before and the
  data handler is not called. A packet of exactly \<open>maxPacketAmount\<close> that fits the balance
  is given to the data handler.
\<close>

theorem handleData_admission:
  assumes ilp: "reaches protocolData ''ilp'' ilp"
    and amount: "deserializeIlpPrepare e (data ilp) = Returns amount"
  shows "(amount > maxPacketAmount m \<longrightarrow>
            fst (handleData m e protocolData w)
              = Returns (ilpResponse (ErrorToReject AmountTooLargeError))
            \<and> receivableBalance (account (snd (handleData m e protocolData w)))
              = receivableBalance (account w)
            \<and> DataHandler ''ilp'' \<notin> set (emitted w (snd (handleData m e protocolData w))))
       \<and> (\<not> amount > maxPacketAmount m
            \<and> receivableBalance (account w) + amount > maxBalance m \<longrightarrow>
            fst (handleData m e protocolData w)
              = Returns (ilpResponse (ErrorToReject InsufficientLiquidityError))
            \<and> receivableBalance (account (snd (handleData m e protocolData w)))
              = receivableBalance (account w)
            \<and> DataHandler ''ilp'' \<notin> set (emitted w (snd (handleData m e protocolData w))))
       \<and> (amount = maxPacketAmount m
            \<and> \<not> receivableBalance (account w) + amount > maxBalance m \<longrightarrow>
            DataHandler ''ilp'' \<in> set (emitted w (snd (handleData m e protocolData w))))"
proof -
  have eq: "handleData m e protocolData w = handlePrepare m e ilp w"
    using ilp by (rule reaches_ilp)
  show ?thesis
    unfolding eq using amount
    by (auto simp: handlePrepare_def Let_def log_def emit_def emitted_def
          split: io.splits IlpReply.splits)
qed

theorem handleData_admission_witness:
  "reaches [example_ilp ''prepare 101''] ''ilp'' (example_ilp ''prepare 101'')
   \<and> deserializeIlpPrepare example_handler (data (example_ilp ''prepare 101'')) = Returns 101
   \<and> maxPacketAmount example_master = 100
   \<and> fst (handleData example_master example_handler [example_ilp ''prepare 101''] example_world)
       = Returns (ilpResponse (ErrorToReject AmountTooLargeError))
   \<and> receivableBalance (account (snd (handleData example_master example_handler
          [example_ilp ''prepare 101''] example_world))) = 7
   \<and> fst (handleData example_master example_handler [example_ilp ''prepare 2''] example_full)
       = Returns (ilpResponse (ErrorToReject InsufficientLiquidityError))
   \<and> DataHandler ''ilp'' \<in> set (emitted example_world
         (snd (handleData example_master example_handler [example_ilp ''prepare 100''] example_world)))"
proof -
  have r101: "reaches [example_ilp ''prepare 101''] ''ilp'' (example_ilp ''prepare 101'')"
    and r2: "reaches [example_ilp ''prepare 2''] ''ilp'' (example_ilp ''prepare 2'')"
    and r100: "reaches [example_ilp ''prepare 100''] ''ilp'' (example_ilp ''prepare 100'')"
    by (simp_all add: reaches_def getBtpSubprotocol_def example_ilp_def)
  have a101: "deserializeIlpPrepare example_handler (data (example_ilp ''prepare 101'')) = Returns 101"
    and a2: "deserializeIlpPrepare example_handler (data (example_ilp ''prepare 2'')) = Returns 2"
    and a100: "deserializeIlpPrepare example_handler (data (example_ilp ''prepare 100'')) = Returns 100"
    by (simp_all add: example_handler_def example_ilp_def)
  have limits: "maxPacketAmount example_master = 100" "maxBalance example_master = 1000"
    "receivableBalance (account example_world) = 7" "receivableBalance (account example_full) = 999"
    by (simp_all add: example_defs example_full_def)
  from handleData_admission [OF r101 a101, of example_master example_world] limits
  have large: "fst (handleData example_master example_handler [example_ilp ''prepare 101''] example_world)
       = Returns (ilpResponse (ErrorToReject AmountTooLargeError))"
    "receivableBalance (account (snd (handleData example_master example_handler
          [example_ilp ''prepare 101''] example_world))) = 7"
    by simp_all
  from handleData_admission [OF r2 a2, of example_master example_full] limits
  have full: "fst (handleData example_master example_handler [example_ilp ''prepare 2''] example_full)
       = Returns (ilpResponse (ErrorToReject InsufficientLiquidityError))"
    by simp
  from handleData_admission [OF r100 a100, of example_master example_world] limits
  have forwarded: "DataHandler ''ilp'' \<in> set (emitted example_world
         (snd (handleData example_master example_handler [example_ilp ''prepare 100''] example_world)))"
    by simp
  from r101 a101 limits(1) large full forwarded show ?thesis
    by (intro conjI)
qed

subsection \<open>The balance over a packet\<close>

text \<open>
  C5. An ILP PREPARE within both limits, answered by the data handler. If the answer is a
  FULFILL, \<open>receivableBalance\<close> ends up higher by the amount of the packet; if it is a
  REJECT, \<open>receivableBalance\<close> ends up as it was. The answer is passed on either way.
\<close>

theorem handleData_balance:
  assumes ilp: "reaches protocolData ''ilp'' ilp"
    and amount: "deserializeIlpPrepare e (data ilp) = Returns amount"
    and size: "\<not> amount > maxPacketAmount m"
    and room: "\<not> receivableBalance (account w) + amount > maxBalance m"
    and response: "dataHandler e (data ilp) = Returns response"
  shows "(deserializeIlpReply e response = Returns IlpFulfill \<longrightarrow>
            receivableBalance (account (snd (handleData m e protocolData w)))
              = receivableBalance (account w) + amount
            \<and> fst (handleData m e protocolData w) = Returns (ilpResponse response))
       \<and> (deserializeIlpReply e response = Returns (IlpReject code) \<longrightarrow>
            receivableBalance (account (snd (handleData m e protocolData w)))
              = receivableBalance (account w)
            \<and> fst (handleData m e protocolData w) = Returns (ilpResponse response))"
proof -
  have eq: "handleData m e protocolData w = handlePrepare m e ilp w"
    using ilp by (rule reaches_ilp)
  show ?thesis
    unfolding eq using amount size room response
    by (simp add: handlePrepare_def Let_def log_def emit_def)
qed

theorem handleData_balance_witness:
  "reaches [example_ilp ''prepare 100''] ''ilp'' (example_ilp ''prepare 100'')
   \<and> deserializeIlpReply example_handler (Bytes ''fulfill'') = Returns IlpFulfill
   \<and> receivableBalance (account example_world) = 7
   \<and> receivableBalance (account (snd (handleData example_master example_handler
          [example_ilp ''prepare 100''] example_world))) = 107
   \<and> deserializeIlpReply example_handler (Bytes ''reject'') = Returns (IlpReject ''F99'')
   \<and> receivableBalance (account (snd (handleData example_master example_handler
          [example_ilp ''prepare 2''] example_world))) = 7"
proof -
  have r2: "reaches [example_ilp ''prepare 2''] ''ilp'' (example_ilp ''prepare 2'')"
    and r100: "reaches [example_ilp ''prepare 100''] ''ilp'' (example_ilp ''prepare 100'')"
    by (simp_all add: reaches_def getBtpSubprotocol_def example_ilp_def)
  have a2: "deserializeIlpPrepare example_handler (data (example_ilp ''prepare 2'')) = Returns 2"
    and a100: "deserializeIlpPrepare example_handler (data (example_ilp ''prepare 100'')) = Returns 100"
    by (simp_all add: example_handler_def example_ilp_def)
  have d2: "dataHandler example_handler (data (example_ilp ''prepare 2'')) = Returns (Bytes ''reject'')"
    and d100: "dataHandler example_handler (data (example_ilp ''prepare 100'')) = Returns (Bytes ''fulfill'')"
    by (simp_all add: example_handler_def example_ilp_def)
  have fulfill: "deserializeIlpReply example_handler (Bytes ''fulfill'') = Returns IlpFulfill"
    and reject: "deserializeIlpReply example_handler (Bytes ''reject'') = Returns (IlpReject ''F99'')"
    by (simp_all add: example_handler_def)
  have size: "\<not> 100 > maxPacketAmount example_master" "\<not> 2 > maxPacketAmount example_master"
    and room: "\<not> receivableBalance (account example_world) + 100 > maxBalance example_master"
      "\<not> receivableBalance (account example_world) + 2 > maxBalance example_master"
    and before: "receivableBalance (account example_world) = 7"
    by (simp_all add: example_defs)
  from handleData_balance [OF r100 a100 size(1) room(1) d100, of "''F99''"] fulfill before
  have kept: "receivableBalance (account (snd (handleData example_master example_handler
          [example_ilp ''prepare 100''] example_world))) = 107"
    by simp
  from handleData_balance [OF r2 a2 size(2) room(2) d2, of "''F99''"] reject before
  have rolled_back: "receivableBalance (account (snd (handleData example_master example_handler
          [example_ilp ''prepare 2''] example_world))) = 7"
    by simp
  from r100 fulfill before kept reject rolled_back show ?thesis
    by (intro conjI)
qed

subsection \<open>Claims that are turned away\<close>

lemma waits_0: "waits 0 w = w"
  by (simp add: waits_def)

lemma waits_Suc: "waits n (emit (Delay 250) w) = waits (Suc n) w"
  by (simp add: waits_def emit_def)

lemma invalid_lines:
  "(Debug, ''Invalid claim: channel does not exist'') \<in> set invalid_claim_lines"
  "(Error, ''Invalid claim: channel is unexpectedly closed'') \<in> set invalid_claim_lines"
  "(Debug, ''Invalid claim: the recipient for new channel is not this wallet'') \<in> set invalid_claim_lines"
  "(Debug, ''Invalid claim: new channel has dispute period below floor'') \<in> set invalid_claim_lines"
  "(Debug, ''Invalid claim: channel is not the previously linked channel'') \<in> set invalid_claim_lines"
  "(Error, ''Invalid claim: value is negative'') \<in> set invalid_claim_lines"
  "(Debug, ''Invalid claim: sender is using a different contract or network'') \<in> set invalid_claim_lines"
  "(Debug, ''Invalid claim: signature is invalid'') \<in> set invalid_claim_lines"
  "(Debug, ''Invalid claim: value is above value of channel'') \<in> set invalid_claim_lines"
  "(Debug, ''Invalid claim: channel is already linked to a different account'') \<in> set invalid_claim_lines"
  "(Debug, ''Invalid claim: value is less than previous claim'') \<in> set invalid_claim_lines"
  unfolding invalid_claim_lines_def by (simp_all only: list.set insert_iff refl simp_thms)

lemma checkClaim_invalid_line:
  "checkClaim m e claim cachedChannel u = Some (lvl, msg) \<Longrightarrow> (lvl, msg) \<in> set invalid_claim_lines"
  unfolding checkClaim_def
  by (auto simp: invalid_lines split: if_splits)

lemma comes_to_throw: "comes_to e claim cachedChannel k w (Throws, w)"
  unfolding comes_to_def by (intro exI [of _ 0]) (simp add: waits_0)

lemma comes_to_line:
  "(lvl, msg) \<in> set invalid_claim_lines \<Longrightarrow>
   comes_to e claim cachedChannel k w (Returns cachedChannel, log lvl msg w)"
  unfolding comes_to_def by (intro exI [of _ 0]) (auto simp: waits_0)

lemma comes_to_link: "comes_to e claim cachedChannel k w (linkChannel e claim cachedChannel u w)"
  unfolding comes_to_def by (intro exI [of _ 0]) (auto simp: waits_0)

lemma comes_to_later:
  assumes "comes_to e claim cachedChannel k (emit (Delay 250) w) res"
  shows "comes_to e claim cachedChannel (Suc k) w res"
proof -
  from assms obtain n where n: "n \<le> k"
    and res: "res = (Throws, waits (Suc n) w)
           \<or> (\<exists>lvl msg. (lvl, msg) \<in> set invalid_claim_lines
                 \<and> res = (Returns cachedChannel, log lvl msg (waits (Suc n) w)))
           \<or> (\<exists>u. res = linkChannel e claim cachedChannel u (waits (Suc n) w))"
    unfolding comes_to_def waits_Suc by blast
  from n have "Suc n \<le> Suc k" by simp
  with res show ?thesis
    unfolding comes_to_def by blast
qed

text \<open>
  A call of \<open>validateClaim\<close> waits some number of times and then throws, or logs one of its
  lines and returns the cached channel, or goes on to the registry.
\<close>

lemma validateClaim_comes_to:
  "comes_to e claim cachedChannel (21 - attempts) w (validateClaim m e claim cachedChannel attempts w)"
proof (induction m e claim cachedChannel attempts w rule: validateClaim.induct)
  case (1 m e claim cachedChannel attempts w)
  have later: "comes_to e claim cachedChannel (21 - attempts) w res"
    if "\<not> attempts > 20" and "comes_to e claim cachedChannel (21 - (attempts + 1)) (emit (Delay 250) w) res"
    for res
  proof -
    from that(1) have "21 - attempts = Suc (21 - (attempts + 1))" by simp
    with comes_to_later [OF that(2)] show ?thesis by simp
  qed
  show ?case
  proof (cases "fetched e claim cachedChannel attempts")
    case Throws
    from validateClaim_Throws [OF this, of m w] show ?thesis
      by (simp add: comes_to_throw)
  next
    case (Returns upd)
    show ?thesis
    proof (cases upd)
      case None
      with Returns have f: "fetched e claim cachedChannel attempts = Returns None" by simp
      show ?thesis
      proof (cases "cachedChannel = None")
        case new: True
        show ?thesis
        proof (cases "attempts > 20")
          case True
          with new validateClaim_None [OF f, of m w] show ?thesis
            by (simp add: comes_to_line [OF invalid_lines(1)])
        next
          case False
          with new have eq: "validateClaim m e claim cachedChannel attempts w
                 = validateClaim m e claim cachedChannel (attempts + 1) (emit (Delay 250) w)"
            using validateClaim_None [OF f, of m w] by simp
          have "comes_to e claim cachedChannel (21 - (attempts + 1)) (emit (Delay 250) w)
              (validateClaim m e claim cachedChannel (attempts + 1) (emit (Delay 250) w))"
            using "1.IH"(1) f new False
            by (auto simp: fetched_def split: if_splits)
          from later [OF False this] show ?thesis
            unfolding eq .
        qed
      next
        case False
        with validateClaim_None [OF f, of m w] show ?thesis
          by (simp add: comes_to_line [OF invalid_lines(2)])
      qed
    next
      case (Some u)
      with Returns have f: "fetched e claim cachedChannel attempts = Returns (Some u)" by simp
      show ?thesis
      proof (cases "checkClaim m e claim cachedChannel u")
        case (Some line)
        then obtain lvl msg where line: "checkClaim m e claim cachedChannel u = Some (lvl, msg)"
          by (cases line) simp
        from validateClaim_earlyReject [OF f line, of w] show ?thesis
          by (simp add: comes_to_line [OF checkClaim_invalid_line [OF line]])
      next
        case ok: None
        note eq = validateClaim_Some [OF f ok, of w]
        show ?thesis
        proof (cases "isGreaterThanOrEqualTo (value_c u) (BigNumber e (claim_value claim))")
          case True
          with eq show ?thesis
            by (simp add: comes_to_link)
        next
          case insufficient: False
          show ?thesis
          proof (cases "attempts > 20")
            case True
            with eq insufficient show ?thesis
              by (simp add: comes_to_line [OF invalid_lines(9)])
          next
            case False
            have "comes_to e claim cachedChannel (21 - (attempts + 1)) (emit (Delay 250) w)
               (validateClaim m e claim cachedChannel (attempts + 1) (emit (Delay 250) w))"
              using "1.IH"(2) f ok insufficient False
              by (auto simp: fetched_def split: if_splits)
            from later [OF False this] eq insufficient False show ?thesis
              by simp
          qed
        qed
      qed
    qed
  qed
qed

text \<open>When the registry step returns the cached channel, it has logged one line.\<close>

lemma linkChannel_turned_away:
  assumes "linkChannel e claim cachedChannel u w = (Returns cachedChannel, w')"
  shows "\<exists>lvl msg. (lvl, msg) \<in> set invalid_claim_lines \<and> w' = log lvl msg w"
proof (cases cachedChannel)
  case None
  show ?thesis
  proof (cases "store w (channelKey (claim_channelId claim))")
    case unbound: None
    from linkChannel_unbound [OF unbound assms [unfolded None]] show ?thesis
      by auto
  next
    case (Some a)
    from linkChannel_bound [OF Some, of e u] assms None invalid_lines(10) show ?thesis
      by auto
  qed
next
  case (Some c)
  with assms have accept: "acceptClaim e claim (Some c) u w = (Returns (Some c), w')"
    by (simp add: linkChannel_def)
  let ?increment = "min (toNumber (BigNumber e (claim_value claim))) (value_c u) - spent c"
  show ?thesis
  proof (cases "?increment > 0")
    case False
    with accept have "w' = log Debug ''Invalid claim: value is less than previous claim'' w"
      by (simp add: acceptClaim_def Let_def)
    with invalid_lines(11) show ?thesis by blast
  next
    case True
    with accept have "spent c = toNumber (BigNumber e (claim_value claim))"
      by (auto simp: acceptClaim_def Let_def split: if_splits dest: arg_cong [of _ _ spent])
    with True show ?thesis by (simp add: min_def split: if_splits)
  qed
qed

lemma validateClaim_turned_away:
  assumes "validateClaim m e claim cachedChannel attempts w = (Returns cachedChannel, w')"
  shows "\<exists>n lvl msg. n \<le> 21 - attempts \<and> (lvl, msg) \<in> set invalid_claim_lines
           \<and> w' = log lvl msg (waits n w)"
proof -
  from validateClaim_comes_to [of e claim cachedChannel attempts w m]
  obtain n where n: "n \<le> 21 - attempts"
    and shape: "(Returns cachedChannel, w') = (Throws, waits n w)
        \<or> (\<exists>lvl msg. (lvl, msg) \<in> set invalid_claim_lines
              \<and> (Returns cachedChannel, w') = (Returns cachedChannel, log lvl msg (waits n w)))
        \<or> (\<exists>u. (Returns cachedChannel, w') = linkChannel e claim cachedChannel u (waits n w))"
    unfolding comes_to_def assms by blast
  from shape show ?thesis
  proof (elim disjE exE conjE)
    assume "(Returns cachedChannel, w') = (Throws, waits n w)"
    then show ?thesis by simp
  next
    fix lvl msg
    assume "(lvl, msg) \<in> set invalid_claim_lines"
      and "(Returns cachedChannel, w') = (Returns cachedChannel, log lvl msg (waits n w))"
    with n show ?thesis by auto
  next
    fix u
    assume "(Returns cachedChannel, w') = linkChannel e claim cachedChannel u (waits n w)"
    then have "linkChannel e claim cachedChannel u (waits n w) = (Returns cachedChannel, w')"
      by simp
    from linkChannel_turned_away [OF this] n show ?thesis by blast
  qed
qed

lemma invalid_claim_lines_level:
  "(lvl, msg) \<in> set invalid_claim_lines \<Longrightarrow>
   lvl = Debug \<or> (lvl = Error \<and> (msg = ''Invalid claim: channel is unexpectedly closed''
                                  \<or> msg = ''Invalid claim: value is negative''))"
  unfolding invalid_claim_lines_def by (simp only: list.set insert_iff empty_iff prod.inject) blast

text \<open>
  C9, as amended. A \<open>machinomy\<close> message that \<open>handleData\<close> processes. If \<open>JSON.parse\<close> throws
  on the payload, or gives \<open>null\<close>, \<open>handleData\<close> throws, having logged only the line that
  announces the claim. If the payload parses to another value, \<open>handleData\<close> returns the empty
  list. If that value fails the schema, the only effect is the debug line
  \<open>Invalid claim: schema is malformed\<close> after the announcing line. If it passes the schema
  and \<open>validateClaim\<close> turns the claim away (returns the cached channel), then after the
  announcing line there are at most 21 waits, one of the lines of \<open>validateClaim\<close> for an
  invalid claim, at debug level except for a closed channel and a negative value, which
  are at error level, and the start of the auto-fund task; nothing else happens, so the
  account and the registry are as before.
\<close>

theorem handleData_invalid_claim:
  assumes machinomy: "reaches protocolData ''machinomy'' machinomy"
  shows "(JSON_parse e (data machinomy) = Throws \<or> JSON_parse e (data machinomy) = Returns JNull \<longrightarrow>
            handleData m e protocolData w = (Throws, log Debug ''Handling Machinomy claim'' w))
       \<and> (\<forall>j. JSON_parse e (data machinomy) = Returns j \<and> j \<noteq> JNull \<longrightarrow>
            fst (handleData m e protocolData w) = Returns []
            \<and> (hasValidSchema j = Returns False \<longrightarrow>
                 snd (handleData m e protocolData w)
                   = log Debug ''Invalid claim: schema is malformed''
                       (log Debug ''Handling Machinomy claim'' w))
            \<and> (hasValidSchema j = Returns True
                 \<and> fst (validateClaim m (validation e) (toClaim j) (incoming (account w)) 0
                          (log Debug ''Handling Machinomy claim'' w))
                     = Returns (incoming (account w)) \<longrightarrow>
                 (\<exists>n lvl msg. n \<le> 21 \<and> (lvl, msg) \<in> set invalid_claim_lines
                    \<and> (lvl = Debug
                        \<or> (lvl = Error
                            \<and> (msg = ''Invalid claim: channel is unexpectedly closed''
                                \<or> msg = ''Invalid claim: value is negative'')))
                    \<and> snd (handleData m e protocolData w)
                        = emit AutoFundOutgoingChannel
                            (log lvl msg (waits n (log Debug ''Handling Machinomy claim'' w))))
                 \<and> account (snd (handleData m e protocolData w)) = account w
                 \<and> store (snd (handleData m e protocolData w)) = store w))"
proof -
  let ?w = "log Debug ''Handling Machinomy claim'' w"
  have eq: "handleData m e protocolData w = handleMachinomy m e machinomy w"
    using machinomy by (rule reaches_machinomy)
  have thrown: "handleMachinomy m e machinomy w = (Throws, ?w)"
    if "JSON_parse e (data machinomy) = Throws \<or> JSON_parse e (data machinomy) = Returns JNull"
    using that by (auto simp: handleMachinomy_def Let_def hasValidSchema_def)
  have parsed: "fst (handleMachinomy m e machinomy w) = Returns []
            \<and> (hasValidSchema j = Returns False \<longrightarrow>
                 snd (handleMachinomy m e machinomy w)
                   = log Debug ''Invalid claim: schema is malformed'' ?w)
            \<and> (hasValidSchema j = Returns True
                 \<and> fst (validateClaim m (validation e) (toClaim j) (incoming (account w)) 0 ?w)
                     = Returns (incoming (account w)) \<longrightarrow>
                 (\<exists>n lvl msg. n \<le> 21 \<and> (lvl, msg) \<in> set invalid_claim_lines
                    \<and> (lvl = Debug
                        \<or> (lvl = Error
                            \<and> (msg = ''Invalid claim: channel is unexpectedly closed''
                                \<or> msg = ''Invalid claim: value is negative'')))
                    \<and> snd (handleMachinomy m e machinomy w)
                        = emit AutoFundOutgoingChannel (log lvl msg (waits n ?w)))
                 \<and> account (snd (handleMachinomy m e machinomy w)) = account w
                 \<and> store (snd (handleMachinomy m e machinomy w)) = store w)"
    if json: "JSON_parse e (data machinomy) = Returns j" and object: "j \<noteq> JNull" for j
  proof -
    let ?run = "validateClaim m (validation e) (toClaim j) (incoming (account w)) 0 ?w"
    from object have "\<exists>ok. hasValidSchema j = Returns ok"
      by (cases j) (auto simp: hasValidSchema_def)
    then obtain ok where schema: "hasValidSchema j = Returns ok" ..
    have acc: "incoming (account ?w) = incoming (account w)"
      by (simp add: log_def emit_def)
    have returns: "fst (handleMachinomy m e machinomy w) = Returns []"
      using json schema
      by (cases ok)
         (auto simp: handleMachinomy_def Let_def incoming_add_def split: prod.splits io.splits)
    have malformed: "snd (handleMachinomy m e machinomy w)
        = log Debug ''Invalid claim: schema is malformed'' ?w" if "hasValidSchema j = Returns False"
      using json that by (simp add: handleMachinomy_def Let_def)
    have rejected: "(\<exists>n lvl msg. n \<le> 21 \<and> (lvl, msg) \<in> set invalid_claim_lines
                    \<and> (lvl = Debug
                        \<or> (lvl = Error
                            \<and> (msg = ''Invalid claim: channel is unexpectedly closed''
                                \<or> msg = ''Invalid claim: value is negative'')))
                    \<and> snd (handleMachinomy m e machinomy w)
                        = emit AutoFundOutgoingChannel (log lvl msg (waits n ?w)))
                 \<and> account (snd (handleMachinomy m e machinomy w)) = account w
                 \<and> store (snd (handleMachinomy m e machinomy w)) = store w"
      if valid: "hasValidSchema j = Returns True" and kept: "fst ?run = Returns (incoming (account w))"
    proof -
      obtain w2 where run: "?run = (Returns (incoming (account w)), w2)"
        using kept by (cases ?run) simp
      from validateClaim_turned_away [OF run] obtain n lvl msg
        where n: "n \<le> 21" and line: "(lvl, msg) \<in> set invalid_claim_lines"
          and w2: "w2 = log lvl msg (waits n ?w)"
        by auto
      have same: "account w2 = account w" "store w2 = store w"
        by (simp_all add: w2 log_def emit_def waits_def)
      have id: "w2\<lparr>account := account w\<rparr> = w2"
        unfolding same(1) [symmetric] by simp
      have w': "snd (handleMachinomy m e machinomy w) = emit AutoFundOutgoingChannel w2"
        using json valid run
        by (simp add: handleMachinomy_def Let_def incoming_add_def acc commit_def same id)
      from n line invalid_claim_lines_level [OF line] w' w2 same show ?thesis
        by (auto simp: emit_def)
    qed
    from returns malformed rejected show ?thesis
      by blast
  qed
  from thrown parsed show ?thesis
    unfolding eq by blast
qed

theorem handleData_invalid_claim_counterexample:
  "reaches [example_claim_message (Bytes ''{'')] ''machinomy'' (example_claim_message (Bytes ''{''))
   \<and> JSON_parse example_handler (data (example_claim_message (Bytes ''{''))) = Throws
   \<and> fst (handleData example_master example_handler [example_claim_message (Bytes ''{'')]
            example_world) = Throws
   \<and> hasValidSchema (example_json ''-1'' ''0x5161'') = Returns True
   \<and> Log Error ''Invalid claim: value is negative''
        \<in> set (trace (snd (handleData example_master example_handler
              [example_claim_message (Stringify (example_json ''-1'' ''0x5161''))] example_world)))"
  by code_simp

theorem handleData_invalid_claim_witness:
  "reaches [example_claim_message (Bytes ''{'')] ''machinomy'' (example_claim_message (Bytes ''{''))
   \<and> JSON_parse example_handler (data (example_claim_message (Bytes ''{''))) = Throws
   \<and> handleData example_master example_handler [example_claim_message (Bytes ''{'')] example_world
       = (Throws, log Debug ''Handling Machinomy claim'' example_world)
   \<and> hasValidSchema (JObject [(''value'', JNumber 5)]) = Returns False
   \<and> handleData example_master example_handler
         [example_claim_message (Stringify (JObject [(''value'', JNumber 5)]))] example_world
       = (Returns [], log Debug ''Invalid claim: schema is malformed''
                        (log Debug ''Handling Machinomy claim'' example_world))
   \<and> hasValidSchema (example_json ''0'' ''0xbad'') = Returns True
   \<and> fst (handleData example_master example_handler
         [example_claim_message (Stringify (example_json ''0'' ''0xbad''))] example_world)
       = Returns []
   \<and> account (snd (handleData example_master example_handler
         [example_claim_message (Stringify (example_json ''0'' ''0xbad''))] example_world))
       = example_account
   \<and> trace (snd (handleData example_master example_handler
         [example_claim_message (Stringify (example_json ''0'' ''0xbad''))] example_world))
       = [Log Debug ''Handling Machinomy claim'', Log Debug ''Invalid claim: signature is invalid'',
          AutoFundOutgoingChannel]"
proof -
  let ?bad = "JObject [(''value'', JNumber 5)]"
  let ?unsigned = "example_json ''0'' ''0xbad''"
  have r0: "reaches [example_claim_message (Bytes ''{'')] ''machinomy''
              (example_claim_message (Bytes ''{''))"
    and r1: "reaches [example_claim_message (Stringify ?bad)] ''machinomy''
              (example_claim_message (Stringify ?bad))"
    and r2: "reaches [example_claim_message (Stringify ?unsigned)] ''machinomy''
              (example_claim_message (Stringify ?unsigned))"
    by (simp_all add: reaches_def getBtpSubprotocol_def example_claim_message_def)
  have p0: "JSON_parse example_handler (data (example_claim_message (Bytes ''{''))) = Throws"
    and p1: "JSON_parse example_handler (data (example_claim_message (Stringify ?bad))) = Returns ?bad"
    and p2: "JSON_parse example_handler (data (example_claim_message (Stringify ?unsigned)))
               = Returns ?unsigned"
    by (simp_all add: example_handler_def example_claim_message_def)
  have o1: "?bad \<noteq> JNull" and o2: "?unsigned \<noteq> JNull"
    by (simp_all add: example_json_def)
  have s1: "hasValidSchema ?bad = Returns False" and s2: "hasValidSchema ?unsigned = Returns True"
    by (simp_all add: hasValidSchema_def example_json_def)
  have rejected: "fst (validateClaim example_master (validation example_handler) (toClaim ?unsigned)
                     (incoming (account example_world)) 0
                     (log Debug ''Handling Machinomy claim'' example_world))
                = Returns (incoming (account example_world))"
    by code_simp
  have acct: "account example_world = example_account"
    by (simp add: example_world_def)
  have line: "trace (snd (handleData example_master example_handler
         [example_claim_message (Stringify ?unsigned)] example_world))
       = [Log Debug ''Handling Machinomy claim'', Log Debug ''Invalid claim: signature is invalid'',
          AutoFundOutgoingChannel]"
    by code_simp
  from handleData_invalid_claim [OF r0, of example_handler example_master example_world] p0
  have thrown: "handleData example_master example_handler [example_claim_message (Bytes ''{'')]
        example_world = (Throws, log Debug ''Handling Machinomy claim'' example_world)"
    by simp
  from handleData_invalid_claim [OF r1, of example_handler example_master example_world] p1 o1 s1
  have dropped: "handleData example_master example_handler
         [example_claim_message (Stringify ?bad)] example_world
       = (Returns [], log Debug ''Invalid claim: schema is malformed''
                        (log Debug ''Handling Machinomy claim'' example_world))"
    by (simp add: prod_eq_iff)
  from handleData_invalid_claim [OF r2, of example_handler example_master example_world]
    p2 o2 s2 rejected acct
  have unchanged: "fst (handleData example_master example_handler
         [example_claim_message (Stringify ?unsigned)] example_world) = Returns []"
    "account (snd (handleData example_master example_handler
         [example_claim_message (Stringify ?unsigned)] example_world)) = example_account"
    by simp_all
  from r0 p0 thrown s1 dropped s2 unchanged line show ?thesis
    by (intro conjI)
qed

end
